theory Spec2Isabelle
  imports Main "HOL-Library.Char_ord" "HOL-Library.List_Lexorder"
begin

section \<open>Strings\<close>

text \<open>
  JavaScript strings are modelled as \<^typ>\<open>string\<close>, one \<^typ>\<open>char\<close> per code unit, so the
  model covers the code units below 256 (ASCII and Latin-1; file identifiers and URLs are
  ASCII). \<open>toLowerCase\<close> maps the capitals of that range, \<open>trim\<close> strips its white space
  from both ends.
\<close>

definition is_upper :: "char \<Rightarrow> bool" where
  "is_upper c = (CHR ''A'' \<le> c \<and> c \<le> CHR ''Z'')"

definition is_lower :: "char \<Rightarrow> bool" where
  "is_lower c = (CHR ''a'' \<le> c \<and> c \<le> CHR ''z'')"

definition is_digit :: "char \<Rightarrow> bool" where
  "is_digit c = (CHR ''0'' \<le> c \<and> c \<le> CHR ''9'')"

definition is_latin_upper :: "char \<Rightarrow> bool" where
  "is_latin_upper c = (CHR 0xC0 \<le> c \<and> c \<le> CHR 0xDE \<and> c \<noteq> CHR 0xD7)"

definition lower_char :: "char \<Rightarrow> char" where
  "lower_char c =
     (if is_upper c \<or> is_latin_upper c then char_of (of_char c + (32::nat)) else c)"

definition toLowerCase :: "string \<Rightarrow> string" where
  "toLowerCase s = map lower_char s"

definition is_space :: "char \<Rightarrow> bool" where
  "is_space c = (c \<in> set [CHR 0x09, CHR 0x0A, CHR 0x0B, CHR 0x0C, CHR 0x0D, CHR 0x20, CHR 0xA0])"

definition trim :: "string \<Rightarrow> string" where
  "trim s = rev (dropWhile is_space (rev (dropWhile is_space s)))"

text \<open>\<open>s.includes(sub)\<close> of the source: \<open>sub\<close> occurs somewhere in \<open>s\<close>.\<close>

fun starts_with :: "string \<Rightarrow> string \<Rightarrow> bool" where
  "starts_with s [] = True"
| "starts_with [] (p # ps) = False"
| "starts_with (c # cs) (p # ps) = (c = p \<and> starts_with cs ps)"

fun str_includes :: "string \<Rightarrow> string \<Rightarrow> bool" where
  "str_includes [] sub = (sub = [])"
| "str_includes (c # cs) sub = (starts_with (c # cs) sub \<or> str_includes cs sub)"

section \<open>Errors\<close>

text \<open>
  Every \<open>throw\<close> of the modelled functions is a constructor; \<open>ExtractIdFailure\<close> is the
  re-throw of \<open>extractAndValidateDriveId\<close>, whose message embeds the caught error's.
\<close>

datatype failure =
    NoIdInUrl string
  | RequestFailed string
  | StreamFailed string
  | FileNotCreated
  | EmptyFile
  | AllUrlsFailed
  | InvalidId
  | InvalidIdChars
  | ExtractIdFailure failure
  | ObjectNotFound nat
  | CreateRefused

section \<open>Fetch strategy (utils/drive-downloader.js)\<close>

subsection \<open>extractFileIdFromUrl\<close>

text \<open>The character class \<open>[a-zA-Z0-9-_]\<close> of the five patterns.\<close>

definition id_char :: "char \<Rightarrow> bool" where
  "id_char c = (is_lower c \<or> is_upper c \<or> is_digit c \<or> c = CHR ''-'' \<or> c = CHR ''_'')"

text \<open>
  A pattern \<open>/lit([a-zA-Z0-9-_]+)/\<close> searched in \<open>s\<close>: the leftmost position where the
  literal is followed by at least one class character; the group is the longest run of
  class characters there (the quantifier is greedy and nothing follows it).
\<close>

fun match_after :: "string \<Rightarrow> string \<Rightarrow> string option" where
  "match_after lit [] = None"
| "match_after lit (c # cs) =
     (if starts_with (c # cs) lit \<and> takeWhile id_char (drop (length lit) (c # cs)) \<noteq> []
      then Some (takeWhile id_char (drop (length lit) (c # cs)))
      else match_after lit cs)"

text \<open>The anchored pattern \<open>/^([a-zA-Z0-9-_]+)$/\<close>: the whole string is a bare identifier.\<close>

definition match_whole :: "string \<Rightarrow> string option" where
  "match_whole s = (if s \<noteq> [] \<and> list_all id_char s then Some s else None)"

definition patterns :: "(string \<Rightarrow> string option) list" where
  "patterns =
     [match_after ''/file/d/'',
      match_after ''/open?id='',
      match_after ''/d/'',
      match_after ''id='',
      match_whole]"

text \<open>The \<open>for\<close> loop over the patterns: the first one that matches returns its group.\<close>

fun first_match :: "(string \<Rightarrow> string option) list \<Rightarrow> string \<Rightarrow> string option" where
  "first_match [] url = None"
| "first_match (p # ps) url = (case p url of Some g \<Rightarrow> Some g | None \<Rightarrow> first_match ps url)"

definition extractFileIdFromUrl :: "string \<Rightarrow> failure + string" where
  "extractFileIdFromUrl url =
     (case first_match patterns url of
        Some fileId \<Rightarrow> Inr fileId
      | None \<Rightarrow> Inl (NoIdInUrl url))"

subsection \<open>extractAndValidateDriveId (2downloadvideo.js)\<close>

text \<open>\<open>/^[a-zA-Z0-9_-]+$/.test(fileId)\<close>.\<close>

definition validIdPattern :: "string \<Rightarrow> bool" where
  "validIdPattern s = (s \<noteq> [] \<and> list_all id_char s)"

definition extractAndValidateDriveId :: "string \<Rightarrow> failure + string" where
  "extractAndValidateDriveId driveLink =
     (case extractFileIdFromUrl driveLink of
        Inl e \<Rightarrow> Inl (ExtractIdFailure e)
      | Inr fileId \<Rightarrow>
          if fileId = [] \<or> length fileId < 20 then Inl (ExtractIdFailure InvalidId)
          else if \<not> validIdPattern fileId then Inl (ExtractIdFailure InvalidIdChars)
          else Inr fileId)"

subsection \<open>downloadFromDrive\<close>

text \<open>
  What one candidate URL does when it is requested. \<open>NoResponse\<close>: the request itself
  throws (network error, timeout, status outside 200..399). Otherwise the response has a
  declared content type (\<open>''''\<close> when the header is missing) and a body whose streaming
  either fails or finishes, leaving the local file absent (\<open>None\<close>) or with a size.
  The content length is only printed by the source and is left out.
\<close>

datatype stream_end = StreamError string | Finish "nat option"

datatype response = NoResponse string | Response string stream_end

record download_result =
  filePath :: string
  fileName :: string
  fileSize :: nat
  mimeType :: string

text \<open>
  One pass of the loop body: \<open>Skip\<close> is the \<open>continue\<close> on a markup content type (no
  error is raised), \<open>Threw\<close> an error raised inside the \<open>try\<close>, \<open>Done\<close> the \<open>return\<close>
  with the final size of the file.
\<close>

datatype attempt = Skip | Threw failure | Done nat

fun try_candidate :: "response \<Rightarrow> attempt" where
  "try_candidate (NoResponse msg) = Threw (RequestFailed msg)"
| "try_candidate (Response contentType body) =
     (if str_includes contentType ''text/html'' then Skip
      else case body of
        StreamError msg \<Rightarrow> Threw (StreamFailed msg)
      | Finish None \<Rightarrow> Threw FileNotCreated
      | Finish (Some finalSize) \<Rightarrow> if finalSize = 0 then Threw EmptyFile else Done finalSize)"

text \<open>
  The loop over \<open>downloadUrls\<close>. The result comes with the URLs requested, in order, and
  with the local file left behind (its size, or \<open>None\<close>: every failing pass unlinks it).
  A thrown error ends the loop only at the last index; falling out of the loop throws the
  generic error.
\<close>

fun try_urls :: "(string \<Rightarrow> response) \<Rightarrow> string \<Rightarrow> string \<Rightarrow> string list
    \<Rightarrow> (failure + download_result) \<times> string list \<times> nat option" where
  "try_urls net fp fn [] = (Inl AllUrlsFailed, [], None)"
| "try_urls net fp fn (u # us) =
     (case try_candidate (net u) of
        Skip \<Rightarrow> (case try_urls net fp fn us of (r, t, f) \<Rightarrow> (r, u # t, f))
      | Threw e \<Rightarrow>
          if us \<noteq> [] then (case try_urls net fp fn us of (r, t, f) \<Rightarrow> (r, u # t, f))
          else (Inl e, [u], None)
      | Done finalSize \<Rightarrow>
          (Inr \<lparr>filePath = fp, fileName = fn, fileSize = finalSize, mimeType = ''video/mp4''\<rparr>,
           [u], Some finalSize))"

definition downloadUrls :: "string \<Rightarrow> string list" where
  "downloadUrls fileId =
     [''https://drive.google.com/uc?export=download&id='' @ fileId,
      ''https://docs.google.com/uc?export=download&id='' @ fileId,
      ''https://drive.usercontent.google.com/download?id='' @ fileId @ ''&export=download'',
      ''https://drive.google.com/uc?id='' @ fileId @ ''&export=download'']"

text \<open>
  \<open>tempDir\<close> is the directory \<open>ensureTempDirectory\<close> returns, \<open>old\<close> the file found at the
  target path before the call (it is unlinked before the first request).
\<close>

definition downloadFromDrive :: "string \<Rightarrow> (string \<Rightarrow> response) \<Rightarrow> nat option \<Rightarrow> string
    \<Rightarrow> (failure + download_result) \<times> string list \<times> nat option" where
  "downloadFromDrive tempDir net old driveUrl =
     (case extractFileIdFromUrl driveUrl of
        Inl e \<Rightarrow> (Inl e, [], old)
      | Inr fileId \<Rightarrow>
          (let fileName = ''video_'' @ fileId @ ''.mp4'';
               filePath = tempDir @ ''/'' @ fileName
           in try_urls net filePath fileName (downloadUrls fileId)))"

text \<open>
  The two kinds of failing candidate: one that answers with a markup content type, and
  one whose body streams to a file of zero bytes.
\<close>

definition is_markup :: "response \<Rightarrow> bool" where
  "is_markup r = (case r of Response ct body \<Rightarrow> str_includes ct ''text/html'' | NoResponse msg \<Rightarrow> False)"

definition is_zero_byte :: "response \<Rightarrow> bool" where
  "is_zero_byte r =
     (case r of Response ct body \<Rightarrow> \<not> str_includes ct ''text/html'' \<and> body = Finish (Some 0)
      | NoResponse msg \<Rightarrow> False)"


section \<open>Record store\<close>

text \<open>
  The Notion database: its pages in the order an unsorted query lists them, and the
  identifier the next created page receives. Properties carry the names of the database
  columns; a rich-text or title property is the list of the plain texts of its segments, a
  date is a time in milliseconds. The numeric columns \<open>File Size (MB)\<close> and
  \<open>Upload Time (s)\<close> hold floating-point values that nothing modelled here reads, and
  are left out. \<open>refuses\<close> tells which pages the store declines to create (a failing
  \<open>pages.create\<close> call); a created page is listed last. An update or a retrieval fails
  when no page has the identifier.
\<close>

datatype status = Pending | Processing | Uploaded | Error

record page =
  page_id :: nat
  Video_Title :: "string list"
  Drive_Link :: "string option"
  Video_Description :: "string list"
  Tags :: "string list"
  Category :: "string option"
  Privacy :: "string option"
  Upload_Status :: "status option"
  Drive_Created :: "string option"
  Upload_Date :: "int option"
  YouTube_URL :: "string option"
  Video_ID :: "string list"
  Thumbnail_URL :: "string option"
  Final_Privacy :: "string option"
  Error_Message :: "string list"
  Error_Date :: "int option"
  Upload_Attempts :: "int option"
  Last_Attempt :: "int option"

record notion =
  pages :: "page list"
  next_id :: nat
  refuses :: "page \<Rightarrow> bool"

text \<open>
  \<open>databases.query\<close> with a filter and an optional \<open>page_size\<close>: one response, holding
  the matching pages up to the page size. A query that names no page size is answered
  with the store's maximum of 100 pages (the maximum the source notes at
  \<open>fetchPendingVideos\<close>). No caller follows the cursor to a second page.
\<close>

definition notion_query :: "notion \<Rightarrow> (page \<Rightarrow> bool) \<Rightarrow> nat option \<Rightarrow> page list" where
  "notion_query db flt page_size =
     (case page_size of
        None \<Rightarrow> take 100 (filter flt (pages db))
      | Some n \<Rightarrow> take n (filter flt (pages db)))"

definition notion_create :: "notion \<Rightarrow> page \<Rightarrow> failure + notion" where
  "notion_create db props =
     (if refuses db props then Inl CreateRefused
      else Inr (db\<lparr>pages := pages db @ [props\<lparr>page_id := next_id db\<rparr>],
                    next_id := Suc (next_id db)\<rparr>))"

definition notion_retrieve :: "notion \<Rightarrow> nat \<Rightarrow> failure + page" where
  "notion_retrieve db pid =
     (case find (\<lambda>p. page_id p = pid) (pages db) of
        None \<Rightarrow> Inl (ObjectNotFound pid)
      | Some p \<Rightarrow> Inr p)"

text \<open>\<open>pages.update\<close>: the given properties are written, the others stay.\<close>

definition notion_update :: "notion \<Rightarrow> nat \<Rightarrow> (page \<Rightarrow> page) \<Rightarrow> failure + notion" where
  "notion_update db pid upd =
     (if pid \<in> page_id ` set (pages db)
      then Inr (db\<lparr>pages := map (\<lambda>p. if page_id p = pid then upd p else p) (pages db)\<rparr>)
      else Inl (ObjectNotFound pid))"

section \<open>Reconciler (5syncgdrive.js)\<close>

text \<open>A file as the Drive listing returns it (\<open>file_size\<close> is \<open>parseInt(size) || 0\<close>).\<close>

record drive_file =
  file_id :: string
  file_name :: string
  file_size :: nat
  file_createdTime :: string

record video =
  drive_id :: string
  name :: string
  originalName :: string
  size_bytes :: nat
  createdTime :: string
  driveLink :: string

text \<open>
  \<open>name.replace(/\\.[^/.]+$/, "")\<close>: the text from the last dot on is removed when at
  least one character follows that dot and none of them is a slash.
\<close>

definition remove_extension :: "string \<Rightarrow> string" where
  "remove_extension s =
     (let ext = takeWhile (\<lambda>c. c \<noteq> CHR ''.'') (rev s)
      in if length ext < length s \<and> ext \<noteq> [] \<and> CHR ''/'' \<notin> set ext
         then take (length s - length ext - 1) s
         else s)"

definition shareableLink :: "string \<Rightarrow> string" where
  "shareableLink fid = ''https://drive.google.com/file/d/'' @ fid @ ''/view?usp=sharing''"

definition process_file :: "drive_file \<Rightarrow> video" where
  "process_file f =
     \<lparr>drive_id = file_id f, name = remove_extension (file_name f), originalName = file_name f,
      size_bytes = file_size f, createdTime = file_createdTime f,
      driveLink = shareableLink (file_id f)\<rparr>"

text \<open>\<open>files\<close> is the listing of the folder, newest first, as the Drive API answers it.\<close>

definition getVideosFromDrive :: "drive_file list \<Rightarrow> video list" where
  "getVideosFromDrive files = map process_file files"

text \<open>
  The two lookups, filled page by page: the first title segment, lowercased and trimmed,
  when it is a non-empty string; the link when it is a non-empty string.
\<close>

definition collect_page :: "page \<Rightarrow> string set \<times> string set \<Rightarrow> string set \<times> string set" where
  "collect_page p acc =
     (case acc of (existingVideos, existingLinks) \<Rightarrow>
        ((case Video_Title p of
            [] \<Rightarrow> existingVideos
          | title # segs \<Rightarrow>
              if title \<noteq> [] then insert (trim (toLowerCase title)) existingVideos
              else existingVideos),
         (case Drive_Link p of
            None \<Rightarrow> existingLinks
          | Some l \<Rightarrow> if l \<noteq> [] then insert l existingLinks else existingLinks)))"

definition getExistingVideosFromNotion :: "notion \<Rightarrow> string set \<times> string set" where
  "getExistingVideosFromNotion db =
     fold collect_page (notion_query db (\<lambda>p. True) (Some 100)) ({}, {})"

text \<open>The page \<open>addVideoToNotion\<close> asks for, with the defaults of \<open>DEFAULT_SETTINGS\<close>.\<close>

definition new_page :: "video \<Rightarrow> page" where
  "new_page v =
     \<lparr>page_id = 0, Video_Title = [name v], Drive_Link = Some (driveLink v),
      Video_Description = [], Tags = [], Category = Some ''Education'',
      Privacy = Some ''Public'', Upload_Status = Some Pending,
      Drive_Created = Some (createdTime v), Upload_Date = None, YouTube_URL = None,
      Video_ID = [], Thumbnail_URL = None, Final_Privacy = None, Error_Message = [],
      Error_Date = None, Upload_Attempts = None, Last_Attempt = None\<rparr>"

definition addVideoToNotion :: "notion \<Rightarrow> video \<Rightarrow> failure + notion" where
  "addVideoToNotion db v = notion_create db (new_page v)"

record sync_options =
  dryRun :: bool
  limit :: "int option"
  skipExisting :: bool

record sync_result =
  added :: nat
  skipped :: nat
  errors :: nat
  total :: "nat option"

text \<open>The filter of step 3.\<close>

definition is_new :: "sync_options \<Rightarrow> string set \<times> string set \<Rightarrow> video \<Rightarrow> bool" where
  "is_new opts existing v =
     (let nameExists = trim (toLowerCase (name v)) \<in> fst existing;
          linkExists = driveLink v \<in> snd existing
      in \<not> (skipExisting opts \<and> (nameExists \<or> linkExists)))"

text \<open>
  \<open>limit ? newVideos.slice(0, limit) : newVideos\<close>: no limit, or the limit \<open>0\<close>, keeps
  the list; a negative limit counts from the end.
\<close>

definition apply_limit :: "int option \<Rightarrow> 'a list \<Rightarrow> 'a list" where
  "apply_limit lim xs =
     (case lim of
        None \<Rightarrow> xs
      | Some l \<Rightarrow>
          if l = 0 then xs
          else if 0 < l then take (nat l) xs
          else take (length xs - nat (- l)) xs)"

text \<open>The loop of step 5, carrying the store and the counters \<open>added\<close> and \<open>errors\<close>.\<close>

fun add_videos :: "bool \<Rightarrow> video list \<Rightarrow> notion \<times> nat \<times> nat \<Rightarrow> notion \<times> nat \<times> nat" where
  "add_videos dry [] acc = acc"
| "add_videos dry (v # vs) (db, n_added, n_errors) =
     (if dry then add_videos dry vs (db, Suc n_added, n_errors)
      else case addVideoToNotion db v of
        Inr db' \<Rightarrow> add_videos dry vs (db', Suc n_added, n_errors)
      | Inl e \<Rightarrow> add_videos dry vs (db, n_added, Suc n_errors))"

definition syncVideos :: "drive_file list \<Rightarrow> sync_options \<Rightarrow> notion \<Rightarrow> sync_result \<times> notion" where
  "syncVideos files opts db =
     (let driveVideos = getVideosFromDrive files in
      if driveVideos = [] then (\<lparr>added = 0, skipped = 0, errors = 0, total = None\<rparr>, db)
      else
        let existing = getExistingVideosFromNotion db;
            newVideos = filter (is_new opts existing) driveVideos
        in if newVideos = []
           then (\<lparr>added = 0, skipped = length driveVideos, errors = 0, total = None\<rparr>, db)
           else
             let videosToAdd = apply_limit (limit opts) newVideos in
             case add_videos (dryRun opts) videosToAdd (db, 0, 0) of
               (db', n_added, n_errors) \<Rightarrow>
                 (\<lparr>added = n_added, skipped = length driveVideos - length newVideos,
                   errors = n_errors, total = Some (length driveVideos)\<rparr>, db'))"

section \<open>Lifecycle driver\<close>

text \<open>
  \<open>now\<close> is the clock reading the calls take with \<open>new Date()\<close>. A JavaScript value used
  as a condition is true for a string when it is present and not empty, for a number when it
  is present and not zero.
\<close>

definition truthy :: "string option \<Rightarrow> bool" where
  "truthy x = (case x of None \<Rightarrow> False | Some s \<Rightarrow> s \<noteq> [])"

definition truthy_num :: "int option \<Rightarrow> bool" where
  "truthy_num x = (case x of None \<Rightarrow> False | Some n \<Rightarrow> n \<noteq> 0)"

text \<open>The outcome object of the publish step, as the update functions read it.\<close>

record upload_result =
  success :: bool
  videoId :: "string option"
  videoUrl :: "string option"
  url :: "string option"
  thumbnailUrl :: "string option"
  uploadDate :: "int option"
  privacy :: "string option"
  error :: "string option"
  attempts :: "int option"

subsection \<open>utils/update-notion.js\<close>

record youtube_data =
  data_videoUrl :: "string option"
  data_uploadDate :: "int option"

definition status_properties :: "status \<Rightarrow> youtube_data option \<Rightarrow> int \<Rightarrow> page \<Rightarrow> page" where
  "status_properties st youtubeData now p =
     (let p1 = p\<lparr>Upload_Status := Some st\<rparr> in
      case youtubeData of
        None \<Rightarrow> p1
      | Some yd \<Rightarrow>
          (let p2 = (if truthy (data_videoUrl yd) then p1\<lparr>YouTube_URL := data_videoUrl yd\<rparr>
                     else p1)
           in p2\<lparr>Upload_Date :=
                   Some (case data_uploadDate yd of Some d \<Rightarrow> d | None \<Rightarrow> now)\<rparr>))"

definition updateVideoStatus ::
    "notion \<Rightarrow> nat \<Rightarrow> status \<Rightarrow> youtube_data option \<Rightarrow> int \<Rightarrow> failure + notion" where
  "updateVideoStatus db pageId st youtubeData now =
     notion_update db pageId (status_properties st youtubeData now)"


definition markAsProcessing :: "notion \<Rightarrow> nat \<Rightarrow> int \<Rightarrow> failure + notion" where
  "markAsProcessing db pageId now = updateVideoStatus db pageId Processing None now"

definition markAsUploaded :: "notion \<Rightarrow> nat \<Rightarrow> upload_result \<Rightarrow> int \<Rightarrow> failure + notion" where
  "markAsUploaded db pageId uploadResult now =
     (let youtubeData =
        \<lparr>data_videoUrl = (if truthy (videoUrl uploadResult) then videoUrl uploadResult
                           else url uploadResult),
         data_uploadDate = Some now\<rparr>
      in updateVideoStatus db pageId Uploaded (Some youtubeData) now)"


subsection \<open>The update script: updateNotionPage, incrementAttempts, cleanupOldErrors\<close>

definition formatNotionDate :: "int option \<Rightarrow> int \<Rightarrow> int" where
  "formatNotionDate date now = (case date of None \<Rightarrow> now | Some d \<Rightarrow> d)"

definition createRichText :: "string \<Rightarrow> string list" where
  "createRichText txt = (if txt = [] then [] else [take 2000 txt])"

definition upper_char :: "char \<Rightarrow> char" where
  "upper_char c = (if is_lower c then char_of (of_char c - (32::nat)) else c)"

text \<open>
  \<open>privacy.charAt(0).toUpperCase() + privacy.slice(1)\<close>, for the ASCII values the
  privacy field takes (\<open>public\<close>, \<open>unlisted\<close>, \<open>private\<close>).
\<close>

definition capitalize :: "string \<Rightarrow> string" where
  "capitalize s = (case s of [] \<Rightarrow> [] | c # cs \<Rightarrow> upper_char c # cs)"

text \<open>The properties \<open>updateNotionPage\<close> collects, in the order of its \<open>if\<close> statements.\<close>

definition result_properties :: "upload_result \<Rightarrow> int \<Rightarrow> page \<Rightarrow> page" where
  "result_properties uploadResult now p =
     (let p1 = p\<lparr>Upload_Status := Some (if success uploadResult then Uploaded else Error),
                   Upload_Date := Some (formatNotionDate (uploadDate uploadResult) now)\<rparr>;
          p2 = (if success uploadResult \<and> truthy (videoUrl uploadResult)
                then p1\<lparr>YouTube_URL := videoUrl uploadResult\<rparr> else p1);
          p3 = (case videoId uploadResult of
                  Some v \<Rightarrow> if v \<noteq> [] then p2\<lparr>Video_ID := createRichText v\<rparr> else p2
                | None \<Rightarrow> p2);
          p4 = (if truthy (thumbnailUrl uploadResult)
                then p3\<lparr>Thumbnail_URL := thumbnailUrl uploadResult\<rparr> else p3);
          p5 = (case privacy uploadResult of
                  Some pr \<Rightarrow>
                    if success uploadResult \<and> pr \<noteq> []
                    then p4\<lparr>Final_Privacy := Some (capitalize pr)\<rparr> else p4
                | None \<Rightarrow> p4);
          p6 = (case error uploadResult of
                  Some msg \<Rightarrow>
                    if \<not> success uploadResult \<and> msg \<noteq> []
                    then p5\<lparr>Error_Message := createRichText msg, Error_Date := Some now\<rparr>
                    else p5
                | None \<Rightarrow> p5)
      in if truthy_num (attempts uploadResult)
         then p6\<lparr>Upload_Attempts := attempts uploadResult\<rparr> else p6)"

definition updateNotionPage :: "notion \<Rightarrow> nat \<Rightarrow> upload_result \<Rightarrow> int \<Rightarrow> failure + notion" where
  "updateNotionPage db pageId uploadResult now =
     notion_update db pageId (result_properties uploadResult now)"

text \<open>Any failure inside \<open>incrementAttempts\<close> is caught and answered with \<open>1\<close>.\<close>

definition incrementAttempts :: "notion \<Rightarrow> nat \<Rightarrow> int \<Rightarrow> int \<times> notion" where
  "incrementAttempts db pageId now =
     (case notion_retrieve db pageId of
        Inl e \<Rightarrow> (1, db)
      | Inr page \<Rightarrow>
          (let currentAttempts = (case Upload_Attempts page of None \<Rightarrow> 0 | Some n \<Rightarrow> n);
               newAttempts = currentAttempts + 1
           in case notion_update db pageId
                     (\<lambda>p. p\<lparr>Upload_Attempts := Some newAttempts, Last_Attempt := Some now\<rparr>) of
                Inl e \<Rightarrow> (1, db)
              | Inr db' \<Rightarrow> (newAttempts, db')))"

text \<open>
  \<open>updateNotionAfterUpload\<close>, with the environment variables set. The comments it posts
  afterwards are best effort and write no property of the page; they are left out.
\<close>

definition updateNotionAfterUpload ::
    "notion \<Rightarrow> nat \<Rightarrow> upload_result \<Rightarrow> int \<Rightarrow> failure + notion" where
  "updateNotionAfterUpload db pageId uploadResult now =
     (case updateNotionPage db pageId uploadResult now of
        Inl e \<Rightarrow> Inl e
      | Inr db1 \<Rightarrow>
          if success uploadResult then Inr db1
          else Inr (snd (incrementAttempts db1 pageId now)))"

text \<open>
  The cutoff of \<open>cleanupOldErrors\<close>: \<open>new Date()\<close>, then
  \<open>setDate(getDate() - days)\<close>. A zone gives the offset of local time from UTC, in
  milliseconds, at a UTC instant (flag \<open>True\<close>) or at a local time (flag \<open>False\<close>), as the
  language's \<open>LocalTZA\<close> does. \<open>setDate\<close> works on the local calendar: the local time moves
  back by \<open>days\<close> whole days, keeping the time of day, and is converted back to an instant
  with the offset in force there. An instant more than \<open>max_time\<close> away from the epoch is
  not a date: \<open>toISOString\<close> throws on it (\<open>None\<close>). \<open>days\<close> is an integer.
\<close>

type_synonym zone = "int \<Rightarrow> bool \<Rightarrow> int"

definition day_ms :: int where
  "day_ms = 86400000"

definition max_time :: int where
  "max_time = 8640000000000000"

definition cutoffDate :: "zone \<Rightarrow> int \<Rightarrow> int \<Rightarrow> int option" where
  "cutoffDate tza now days =
     (let local_now = now + tza now True;
          local_cutoff = local_now - days * day_ms;
          cutoff = local_cutoff - tza local_cutoff False
      in if \<bar>cutoff\<bar> > max_time then None else Some cutoff)"

text \<open>
  The filter of the query: status \<open>Error\<close> and an \<open>Error Date\<close> before the cutoff.
\<close>

definition stale_error :: "int \<Rightarrow> page \<Rightarrow> bool" where
  "stale_error cutoff p =
     (Upload_Status p = Some Error \<and>
      (case Error_Date p of None \<Rightarrow> False | Some d \<Rightarrow> d < cutoff))"

definition reset_properties :: "page \<Rightarrow> page" where
  "reset_properties p = p\<lparr>Upload_Status := Some Pending, Error_Message := [], Upload_Attempts := Some 0\<rparr>"

fun reset_pages :: "page list \<Rightarrow> notion \<times> nat \<Rightarrow> notion \<times> nat" where
  "reset_pages [] acc = acc"
| "reset_pages (pg # pgs) (db, cleaned) =
     (case notion_update db (page_id pg) reset_properties of
        Inr db' \<Rightarrow> reset_pages pgs (db', Suc cleaned)
      | Inl e \<Rightarrow> reset_pages pgs (db, cleaned))"

text \<open>
  \<open>cleanupOldErrors\<close>. The query names no page size. A reset that fails is skipped and not
  counted; a cutoff that is not a date makes \<open>toISOString\<close> throw before the query, and
  the outer \<open>catch\<close> answers 0 with the store untouched. (The same \<open>catch\<close> would answer
  a failing query; the store of the model always answers.)
\<close>

definition cleanupOldErrors :: "zone \<Rightarrow> notion \<Rightarrow> int \<Rightarrow> int \<Rightarrow> nat \<times> notion" where
  "cleanupOldErrors tza db days now =
     (case cutoffDate tza now days of
        None \<Rightarrow> (0, db)
      | Some cutoff \<Rightarrow>
          (let errorPages = notion_query db (stale_error cutoff) None
           in case reset_pages errorPages (db, 0) of (db', cleaned) \<Rightarrow> (cleaned, db')))"

text \<open>The call without an argument: \<open>days = 7\<close>.\<close>

definition cleanupOldErrors_default :: "zone \<Rightarrow> notion \<Rightarrow> int \<Rightarrow> nat \<times> notion" where
  "cleanupOldErrors_default tza db now = cleanupOldErrors tza db 7 now"

section \<open>Pipeline orchestrator (run-pipeline.js)\<close>

text \<open>
  The pipeline spawns one \<open>node\<close> process per step. A command is the script with its
  arguments; \<open>runCommand\<close> resolves with the exit status (\<open>Exited True\<close> for code 0) or
  rejects when the process cannot be spawned.
\<close>

datatype script = Sync_gdrive | Fetch_videos | Download_video | Upload_youtube | Update_notion

datatype command = Node script "nat list"

datatype exit = Exited bool | SpawnError string

text \<open>The content of \<open>temp_video_data.json\<close> that the pipeline reads.\<close>

record temp_data =
  pageId :: "nat option"
  title :: string

text \<open>
  What the steps act on: the record store, the listing of the Drive folder, the temporary
  file, and whether the environment of the scripts is complete (variables set, Drive
  authentication accepted).
\<close>

record world =
  notion_db :: notion
  folder :: "drive_file list"
  temp_video_data :: "temp_data option"
  environment_ok :: bool

record pipeline_options =
  maxVideos :: nat
  sync :: bool
  preview :: bool
  quiet :: bool

text \<open>
  The object \<open>runPipeline\<close> returns: \<open>{success: true}\<close>, \<open>{success: false, step}\<close> or
  \<open>{success: false, error}\<close>.
\<close>

datatype pipeline_result = Succeeded | FailedStep string | FailedError string

definition readTempData :: "world \<Rightarrow> temp_data option" where
  "readTempData w = temp_video_data w"

text \<open>The end of the \<open>try\<close> block: the temporary file is removed when it exists.\<close>

definition finish :: "command list \<Rightarrow> world \<Rightarrow> pipeline_result \<times> command list \<times> world" where
  "finish tr w = (Succeeded, tr, w\<lparr>temp_video_data := None\<rparr>)"

text \<open>
  One spawned step: the command is appended to the commands run so far; a failing exit
  returns the step's name, a spawn error is caught by the outer \<open>catch\<close>.
\<close>

definition run_step ::
    "(command \<Rightarrow> world \<Rightarrow> exit \<times> world) \<Rightarrow> command \<Rightarrow> string \<Rightarrow> command list \<Rightarrow> world
     \<Rightarrow> (command list \<Rightarrow> world \<Rightarrow> pipeline_result \<times> command list \<times> world)
     \<Rightarrow> pipeline_result \<times> command list \<times> world" where
  "run_step run cmd step_name tr w continue =
     (case run cmd w of
        (SpawnError msg, w') \<Rightarrow> (FailedError msg, tr @ [cmd], w')
      | (Exited False, w') \<Rightarrow> (FailedStep step_name, tr @ [cmd], w')
      | (Exited True, w') \<Rightarrow> continue (tr @ [cmd]) w')"

text \<open>Steps 3 to 5, run only when \<open>preview\<close> is off.\<close>

definition process_video ::
    "(command \<Rightarrow> world \<Rightarrow> exit \<times> world) \<Rightarrow> nat \<Rightarrow> command list \<Rightarrow> world
     \<Rightarrow> pipeline_result \<times> command list \<times> world" where
  "process_video run pid tr w =
     run_step run (Node Download_video [pid]) ''download'' tr w (\<lambda>tr1 w1.
       run_step run (Node Upload_youtube [pid]) ''upload'' tr1 w1 (\<lambda>tr2 w2.
         run_step run (Node Update_notion [pid]) ''update'' tr2 w2 finish))"

text \<open>Step 2 and the reading of the selected video.\<close>

definition select_video ::
    "pipeline_options \<Rightarrow> (command \<Rightarrow> world \<Rightarrow> exit \<times> world) \<Rightarrow> command list \<Rightarrow> world
     \<Rightarrow> pipeline_result \<times> command list \<times> world" where
  "select_video opts run tr w =
     run_step run (Node Fetch_videos []) ''fetch'' tr w (\<lambda>tr1 w1.
       case readTempData w1 of
         None \<Rightarrow> (FailedStep ''no_video'', tr1, w1)
       | Some videoData \<Rightarrow>
           (case pageId videoData of
              None \<Rightarrow> (FailedStep ''no_video'', tr1, w1)
            | Some pid \<Rightarrow>
                if \<not> preview opts then process_video run pid tr1 w1
                else finish tr1 w1))"

text \<open>
  \<open>runPipeline\<close>: the result, the commands spawned in order, and the world left behind.
\<close>

definition runPipeline ::
    "pipeline_options \<Rightarrow> (command \<Rightarrow> world \<Rightarrow> exit \<times> world) \<Rightarrow> world
     \<Rightarrow> pipeline_result \<times> command list \<times> world" where
  "runPipeline opts run w =
     (if sync opts
      then run_step run (Node Sync_gdrive []) ''sync'' [] w (select_video opts run)
      else select_video opts run [] w)"

subsection \<open>The two scripts that run in preview mode\<close>

text \<open>
  \<open>node 5syncgdrive.js\<close> without arguments: \<open>main\<close> calls \<open>syncVideos\<close> with
  \<open>dryRun = false\<close>, no limit and \<open>skipExisting = true\<close>, and exits with 1 only after a
  thrown error.
\<close>

definition sync_main_options :: sync_options where
  "sync_main_options = \<lparr>dryRun = False, limit = None, skipExisting = True\<rparr>"

definition sync_main :: "world \<Rightarrow> exit \<times> world" where
  "sync_main w =
     (if \<not> environment_ok w then (Exited False, w)
      else case syncVideos (folder w) sync_main_options (notion_db w) of
        (r, db') \<Rightarrow> (Exited True, w\<lparr>notion_db := db'\<rparr>))"

text \<open>
  \<open>node 1fetchvideos.js\<close>: \<open>checkDatabaseStatus\<close> counts the pending pages of the first
  100 (a page without status counts as pending); with none, \<open>main\<close> answers \<open>null\<close> and the
  process exits with 1. Otherwise \<open>fetchPendingVideos(1)\<close> asks for the pages whose status
  is \<open>Pending\<close>, sorted by ascending title (here: the order of \<^typ>\<open>string\<close>), page size 1,
  and keeps the page when \<open>processVideoData\<close> finds a title and a link. With a video the
  temporary file is written and the exit code is 0; without one \<open>main\<close> fails on reading
  the title of \<open>null\<close> and the exit code is 1.
\<close>

definition extractTitle :: "string list \<Rightarrow> string" where
  "extractTitle titleArray = trim (concat titleArray)"

definition pending_count :: "notion \<Rightarrow> nat" where
  "pending_count db =
     length (filter (\<lambda>p. Upload_Status p = None \<or> Upload_Status p = Some Pending)
               (notion_query db (\<lambda>p. True) (Some 100)))"

definition notion_query_sorted ::
    "notion \<Rightarrow> (page \<Rightarrow> bool) \<Rightarrow> (page \<Rightarrow> string) \<Rightarrow> nat \<Rightarrow> page list" where
  "notion_query_sorted db flt key page_size = take page_size (sort_key key (filter flt (pages db)))"

definition processVideoData :: "page \<Rightarrow> temp_data option" where
  "processVideoData p =
     (let t = extractTitle (Video_Title p) in
      if t \<noteq> [] \<and> truthy (Drive_Link p)
      then Some \<lparr>pageId = Some (page_id p), title = take 100 t\<rparr>
      else None)"

definition getNextVideoForUpload :: "notion \<Rightarrow> temp_data option" where
  "getNextVideoForUpload db =
     (case notion_query_sorted db (\<lambda>p. Upload_Status p = Some Pending)
             (\<lambda>p. concat (Video_Title p)) (min 1 100) of
        [] \<Rightarrow> None
      | p # ps \<Rightarrow> processVideoData p)"

definition fetch_main :: "world \<Rightarrow> exit \<times> world" where
  "fetch_main w =
     (if \<not> environment_ok w then (Exited False, w)
      else if pending_count (notion_db w) = 0 then (Exited False, w)
      else case getNextVideoForUpload (notion_db w) of
        None \<Rightarrow> (Exited False, w)
      | Some videoData \<Rightarrow> (Exited True, w\<lparr>temp_video_data := Some videoData\<rparr>))"

text \<open>
  The processes behind the commands: the two scripts above, and \<open>others\<close> for the download,
  upload and update scripts.
\<close>

definition node_scripts ::
    "(command \<Rightarrow> world \<Rightarrow> exit \<times> world) \<Rightarrow> command \<Rightarrow> world \<Rightarrow> exit \<times> world" where
  "node_scripts others cmd w =
     (case cmd of
        Node Sync_gdrive args \<Rightarrow> sync_main w
      | Node Fetch_videos args \<Rightarrow> fetch_main w
      | Node other args \<Rightarrow> others cmd w)"

section \<open>Example data\<close>

text \<open>Concrete inputs on which the properties below are evaluated.\<close>

definition example_id :: string where
  "example_id = ''1AbCdEfGhIjKlMnOpQrStUvWx_-9''"

definition example_link :: string where
  "example_link = shareableLink example_id"

definition short_link :: string where
  "short_link = ''https://drive.google.com/open?id=abc123''"

text \<open>Three candidates answer with an empty body, the last one with a markup page.\<close>

definition markup_last :: "string \<Rightarrow> response" where
  "markup_last u =
     (if u = ''https://drive.google.com/uc?id=1AbCdEfGhIjKlMnOpQrStUvWx_-9&export=download''
      then Response ''text/html; charset=utf-8'' (Finish None)
      else Response ''video/mp4'' (Finish (Some 0)))"

text \<open>Only the third candidate serves the file (10 MB); the others answer with markup.\<close>

definition third_serves :: "string \<Rightarrow> response" where
  "third_serves u =
     (if u = ''https://drive.usercontent.google.com/download?id=1AbCdEfGhIjKlMnOpQrStUvWx_-9&export=download''
      then Response ''video/mp4'' (Finish (Some 10485760))
      else Response ''text/html; charset=utf-8'' (Finish None))"

definition empty_bodies :: "string \<Rightarrow> response" where
  "empty_bodies u = Response ''application/octet-stream'' (Finish (Some 0))"

definition empty_store :: notion where
  "empty_store = \<lparr>pages = [], next_id = 0, refuses = (\<lambda>p. False)\<rparr>"


definition two_talks :: "drive_file list" where
  "two_talks =
     [\<lparr>file_id = ''b2'', file_name = ''Talk B.mp4'', file_size = 2048,
       file_createdTime = ''2024-05-02T10:00:00Z''\<rparr>,
      \<lparr>file_id = ''a1'', file_name = ''Talk A.mp4'', file_size = 1024,
       file_createdTime = ''2024-05-01T10:00:00Z''\<rparr>]"

definition one_per_pass :: sync_options where
  "one_per_pass = \<lparr>dryRun = False, limit = Some 1, skipExisting = True\<rparr>"

definition blank_page :: page where
  "blank_page =
     \<lparr>page_id = 0, Video_Title = [], Drive_Link = None, Video_Description = [], Tags = [],
      Category = None, Privacy = None, Upload_Status = None, Drive_Created = None,
      Upload_Date = None, YouTube_URL = None, Video_ID = [], Thumbnail_URL = None,
      Final_Privacy = None, Error_Message = [], Error_Date = None, Upload_Attempts = None,
      Last_Attempt = None\<rparr>"

definition talk_b_page :: page where
  "talk_b_page = blank_page\<lparr>page_id := 100, Video_Title := [''Talk B''],
      Drive_Link := Some ''https://drive.google.com/file/d/b2/view?usp=sharing'',
      Upload_Status := Some Uploaded\<rparr>"

definition failed_page :: page where
  "failed_page = blank_page\<lparr>page_id := 7, Video_Title := [''Sermon 1''],
      Upload_Status := Some Error, Error_Message := [''quota exceeded''],
      Error_Date := Some 1000, Upload_Attempts := Some 2\<rparr>"

definition failed_store :: notion where
  "failed_store = \<lparr>pages = [failed_page], next_id = 8, refuses = (\<lambda>p. False)\<rparr>"

definition pending_page :: page where
  "pending_page = blank_page\<lparr>page_id := 3, Video_Title := [''Sermon 2''],
      Drive_Link := Some ''https://drive.google.com/file/d/1AbCdEfGhIjKlMnOpQrStUvWx_-9/view'',
      Upload_Status := Some Pending, Upload_Attempts := Some 2\<rparr>"

definition pending_store :: notion where
  "pending_store = \<lparr>pages = [pending_page], next_id = 4, refuses = (\<lambda>p. False)\<rparr>"

definition recent_failure :: page where
  "recent_failure = blank_page\<lparr>page_id := 8, Video_Title := [''Sermon 3''],
      Upload_Status := Some Error, Error_Message := [''timeout''],
      Error_Date := Some 600000000, Upload_Attempts := Some 1\<rparr>"

definition mixed_store :: notion where
  "mixed_store = \<lparr>pages = [failed_page, recent_failure, pending_page], next_id = 9,
                   refuses = (\<lambda>p. False)\<rparr>"

text \<open>101 pages in \<open>Error\<close>, all stamped at 1 second.\<close>

definition crowded_store :: notion where
  "crowded_store =
     \<lparr>pages = map (\<lambda>i. failed_page\<lparr>page_id := i\<rparr>) [0..<101], next_id = 101,
      refuses = (\<lambda>p. False)\<rparr>"

text \<open>An error stamped 7 days and 40 minutes before the clock reading 691202000.\<close>

definition week_old_failure :: page where
  "week_old_failure = blank_page\<lparr>page_id := 9, Video_Title := [''Sermon 4''],
      Upload_Status := Some Error, Error_Message := [''timeout''],
      Error_Date := Some 84002000, Upload_Attempts := Some 1\<rparr>"

definition week_old_store :: notion where
  "week_old_store = \<lparr>pages = [week_old_failure], next_id = 10, refuses = (\<lambda>p. False)\<rparr>"

text \<open>
  Two zones: UTC, and a zone that was one hour ahead of UTC until the end of the fourth
  day of the epoch and is on UTC since (clocks set back, as at the end of summer time).
\<close>

definition utc :: zone where
  "utc t is_utc = 0"

definition clocks_set_back :: zone where
  "clocks_set_back t is_utc = (if t < 345600000 then 3600000 else 0)"






definition published :: upload_result where
  "published = \<lparr>success = True, videoId = Some ''dQw4w9WgXcQ'',
      videoUrl = Some ''https://www.youtube.com/watch?v=dQw4w9WgXcQ'', url = None,
      thumbnailUrl = None, uploadDate = Some 5000, privacy = Some ''public'', error = None,
      attempts = None\<rparr>"

definition idle :: "command \<Rightarrow> world \<Rightarrow> exit \<times> world" where
  "idle cmd w = (Exited True, w)"

definition fresh_world :: world where
  "fresh_world = \<lparr>notion_db = empty_store, folder = two_talks, temp_video_data = None,
                   environment_ok = True\<rparr>"

definition tracked_world :: world where
  "tracked_world = \<lparr>notion_db = pending_store, folder = [], temp_video_data = None,
                     environment_ok = True\<rparr>"

definition preview_run :: pipeline_options where
  "preview_run = \<lparr>maxVideos = 1, sync = True, preview = True, quiet = False\<rparr>"

definition preview_only :: pipeline_options where
  "preview_only = \<lparr>maxVideos = 1, sync = False, preview = True, quiet = False\<rparr>"

section \<open>Properties of the fetch strategy\<close>

subsection \<open>Identifier extraction\<close>

lemma match_after_chars: "match_after lit s = Some g \<Longrightarrow> g \<noteq> [] \<and> list_all id_char g"
  by (induction s) (auto split: if_splits simp: list_all_iff dest: set_takeWhileD)

text \<open>\<open>first_match\<close> answers with the group of the pattern of least index that matches.\<close>

lemma first_match_index:
  "first_match ps lnk = Some g \<longleftrightarrow>
     (\<exists>i < length ps. (ps ! i) lnk = Some g \<and> (\<forall>j < i. (ps ! j) lnk = None))"
proof (induction ps)
  case Nil
  then show ?case by simp
next
  case (Cons p ps)
  show ?case
  proof (cases "p lnk")
    case None
    have "(\<exists>i < length (p # ps). ((p # ps) ! i) lnk = Some g \<and> (\<forall>j < i. ((p # ps) ! j) lnk = None))
       \<longleftrightarrow> (\<exists>i < length ps. (ps ! i) lnk = Some g \<and> (\<forall>j < i. (ps ! j) lnk = None))"
      (is "?L \<longleftrightarrow> ?R")
    proof
      assume ?L
      then obtain i where i: "i < length (p # ps)" "((p # ps) ! i) lnk = Some g"
        "\<forall>j < i. ((p # ps) ! j) lnk = None" by blast
      with None obtain k where k: "i = Suc k" by (cases i) auto
      have "\<forall>j < k. (ps ! j) lnk = None"
      proof (intro allI impI)
        fix j assume "j < k"
        then have "Suc j < i" using k by simp
        with i(3) have "((p # ps) ! Suc j) lnk = None" by blast
        then show "(ps ! j) lnk = None" by simp
      qed
      with i k show ?R by auto
    next
      assume ?R
      then obtain i where i: "i < length ps" "(ps ! i) lnk = Some g"
        "\<forall>j < i. (ps ! j) lnk = None" by blast
      have "\<forall>j < Suc i. ((p # ps) ! j) lnk = None"
      proof (intro allI impI)
        fix j assume "j < Suc i"
        then show "((p # ps) ! j) lnk = None" using None i(3) by (cases j) auto
      qed
      with i show ?L by (intro exI[of _ "Suc i"]) auto
    qed
    with None Cons show ?thesis by simp
  next
    case (Some h)
    have "(\<exists>i < length (p # ps). ((p # ps) ! i) lnk = Some g \<and> (\<forall>j < i. ((p # ps) ! j) lnk = None))
       \<longleftrightarrow> h = g"
    proof
      assume "\<exists>i < length (p # ps). ((p # ps) ! i) lnk = Some g \<and> (\<forall>j < i. ((p # ps) ! j) lnk = None)"
      then obtain i where i: "((p # ps) ! i) lnk = Some g" "\<forall>j < i. ((p # ps) ! j) lnk = None"
        by blast
      show "h = g"
      proof (cases i)
        case 0
        with i Some show ?thesis by simp
      next
        case (Suc k)
        with i(2) have "((p # ps) ! 0) lnk = None" by blast
        with Some show ?thesis by simp
      qed
    next
      assume "h = g"
      with Some show "\<exists>i < length (p # ps). ((p # ps) ! i) lnk = Some g \<and> (\<forall>j < i. ((p # ps) ! j) lnk = None)"
        by (intro exI[of _ 0]) auto
    qed
    with Some show ?thesis by simp
  qed
qed

lemma patterns_chars:
  assumes "i < length patterns" "(patterns ! i) lnk = Some g"
  shows "g \<noteq> [] \<and> list_all id_char g"
proof -
  have "i = 0 \<or> i = 1 \<or> i = 2 \<or> i = 3 \<or> i = 4"
    using assms(1) by (auto simp: patterns_def)
  then show ?thesis using assms(2)
    by (auto simp: patterns_def match_whole_def split: if_splits dest: match_after_chars)
qed

text \<open>
  Claim C10. Let \<open>fileId\<close> be the group of the first pattern that matches the link. Then
  \<open>extractFileIdFromUrl\<close> returns it, and \<open>extractAndValidateDriveId\<close> throws when it is
  shorter than 20 characters or holds a character outside letters, digits, hyphen and
  underscore, and returns exactly \<open>fileId\<close> otherwise.
\<close>

theorem extractAndValidateDriveId_checks:
  assumes "i < length patterns"
    and "(patterns ! i) lnk = Some fileId"
    and "\<forall>j < i. (patterns ! j) lnk = None"
  shows "extractFileIdFromUrl lnk = Inr fileId \<and>
    (length fileId < 20 \<or> \<not> list_all id_char fileId
       \<longrightarrow> (\<exists>e. extractAndValidateDriveId lnk = Inl (ExtractIdFailure e))) \<and>
    (20 \<le> length fileId \<and> list_all id_char fileId
       \<longrightarrow> extractAndValidateDriveId lnk = Inr fileId)"
proof -
  have fm: "first_match patterns lnk = Some fileId"
    using assms first_match_index[of patterns lnk fileId] by blast
  then have ex: "extractFileIdFromUrl lnk = Inr fileId"
    by (simp add: extractFileIdFromUrl_def)
  have ok: "fileId \<noteq> [] \<and> list_all id_char fileId"
    using patterns_chars[OF assms(1,2)] .
  show ?thesis using ex ok
    by (auto simp: extractAndValidateDriveId_def validIdPattern_def)
qed

text \<open>
  Claim C10, on two links: a shareable link with a 28-character identifier (first pattern)
  is accepted; \<open>/open?id=abc123\<close> (second pattern, six characters) is refused.
\<close>

theorem extractAndValidateDriveId_checks_witness:
  "(patterns ! 0) example_link = Some example_id \<and>
   20 \<le> length example_id \<and> list_all id_char example_id \<and>
   extractAndValidateDriveId example_link = Inr example_id \<and>
   (patterns ! 1) short_link = Some ''abc123'' \<and> (patterns ! 0) short_link = None \<and>
   extractAndValidateDriveId short_link = Inl (ExtractIdFailure InvalidId)"
proof -
  have l: "0 < length patterns" "1 < length patterns" by (simp_all add: patterns_def)
  have a2: "(patterns ! 0) example_link = Some example_id"
    unfolding patterns_def example_link_def example_id_def shareableLink_def by code_simp
  have a3: "\<forall>j < (0::nat). (patterns ! j) example_link = None" by simp
  have a4: "20 \<le> length example_id \<and> list_all id_char example_id"
    unfolding example_id_def by code_simp
  have b2: "(patterns ! 1) short_link = Some ''abc123''"
    unfolding patterns_def short_link_def by code_simp
  have b0: "(patterns ! 0) short_link = None"
    unfolding patterns_def short_link_def by code_simp
  then have b3: "\<forall>j < (1::nat). (patterns ! j) short_link = None" by simp
  have b4: "extractAndValidateDriveId short_link = Inl (ExtractIdFailure InvalidId)"
    unfolding short_link_def by code_simp
  from extractAndValidateDriveId_checks[OF l(1) a2 a3] a4
  have "extractAndValidateDriveId example_link = Inr example_id" by blast
  moreover from extractAndValidateDriveId_checks[OF l(2) b2 b3]
  have "\<exists>e. extractAndValidateDriveId short_link = Inl (ExtractIdFailure e)" by simp
  ultimately show ?thesis using a2 a4 b2 b0 b4 by simp
qed

subsection \<open>Candidate fallback\<close>

lemma markup_skip: "is_markup r \<Longrightarrow> try_candidate r = Skip"
  by (cases r) (auto simp: is_markup_def)

lemma zero_byte_threw: "is_zero_byte r \<Longrightarrow> try_candidate r = Threw EmptyFile"
  by (cases r) (auto simp: is_zero_byte_def)

lemma try_urls_skip_prefix:
  "\<forall>u \<in> set pre. try_candidate (net u) = Skip \<Longrightarrow>
   try_urls net fp fn (pre @ us) = (case try_urls net fp fn us of (r, t, f) \<Rightarrow> (r, pre @ t, f))"
  by (induction pre) (auto split: prod.splits)

lemma try_urls_exhausted:
  assumes "us \<noteq> []"
    and "\<forall>u \<in> set us. is_markup (net u) \<or> is_zero_byte (net u)"
  shows "try_urls net fp fn us =
           (Inl (if is_markup (net (last us)) then AllUrlsFailed else EmptyFile), us, None)"
  using assms
proof (induction us)
  case Nil
  then show ?case by simp
next
  case (Cons u us)
  show ?case
  proof (cases "us = []")
    case True
    with Cons.prems show ?thesis
      by (auto simp: markup_skip zero_byte_threw)
  next
    case False
    then have ih: "try_urls net fp fn us =
        (Inl (if is_markup (net (last us)) then AllUrlsFailed else EmptyFile), us, None)"
      using Cons by simp
    from Cons.prems have "try_candidate (net u) = Skip \<or> try_candidate (net u) = Threw EmptyFile"
      by (auto simp: markup_skip zero_byte_threw)
    then show ?thesis using False ih by auto
  qed
qed

text \<open>
  Claim C2. For every list of candidates \<open>pre @ u # post\<close>: when the candidates of \<open>pre\<close>
  answer with a markup content type and \<open>u\<close> answers with another content type and streams
  to a file of \<open>n > 0\<close> bytes, the loop returns the payload of \<open>u\<close> (path, name, size \<open>n\<close>,
  the fixed mime type \<open>video/mp4\<close>), and the URLs requested are exactly \<open>pre @ [u]\<close>: none
  of \<open>post\<close> is tried. The same for \<open>downloadFromDrive\<close> on its own four candidates.
\<close>

theorem downloadFromDrive_first_binary_candidate:
  assumes "\<forall>u \<in> set pre. is_markup (net u)"
    and "net u = Response ct (Finish (Some n))"
    and "\<not> str_includes ct ''text/html''"
    and "0 < n"
  shows "try_urls net fp fn (pre @ u # post) =
           (Inr \<lparr>filePath = fp, fileName = fn, fileSize = n, mimeType = ''video/mp4''\<rparr>,
            pre @ [u], Some n)
       \<and> (extractFileIdFromUrl lnk = Inr fid \<and> downloadUrls fid = pre @ u # post \<longrightarrow>
            downloadFromDrive tempDir net old lnk =
              (Inr \<lparr>filePath = tempDir @ ''/video_'' @ fid @ ''.mp4'',
                    fileName = ''video_'' @ fid @ ''.mp4'', fileSize = n,
                    mimeType = ''video/mp4''\<rparr>,
               pre @ [u], Some n))"
proof -
  have skip: "\<forall>v \<in> set pre. try_candidate (net v) = Skip"
    using assms(1) by (simp add: markup_skip)
  have here: "try_candidate (net u) = Done n"
    using assms(2-4) by simp
  have loop: "\<And>fp fn. try_urls net fp fn (pre @ u # post) =
      (Inr \<lparr>filePath = fp, fileName = fn, fileSize = n, mimeType = ''video/mp4''\<rparr>,
       pre @ [u], Some n)"
    using here by (simp add: try_urls_skip_prefix[OF skip])
  show ?thesis
    by (simp add: loop downloadFromDrive_def Let_def)
qed

text \<open>
  Claim C2, on the scenario of three candidates where the first two answer
  \<open>text/html\<close> and the third serves 10 MB of \<open>video/mp4\<close>: the result is the 10 MB file
  and the fourth candidate is not requested.
\<close>

theorem downloadFromDrive_first_binary_candidate_witness:
  "downloadFromDrive ''/app/temp'' third_serves None example_link =
     (Inr \<lparr>filePath = ''/app/temp/video_1AbCdEfGhIjKlMnOpQrStUvWx_-9.mp4'',
           fileName = ''video_1AbCdEfGhIjKlMnOpQrStUvWx_-9.mp4'', fileSize = 10485760,
           mimeType = ''video/mp4''\<rparr>,
      take 3 (downloadUrls example_id), Some 10485760)"
proof -
  let ?pre = "take 2 (downloadUrls example_id)"
  let ?u = "downloadUrls example_id ! 2"
  let ?post = "drop 3 (downloadUrls example_id)"
  have h1: "\<forall>u \<in> set ?pre. is_markup (third_serves u)"
    by (simp add: downloadUrls_def example_id_def third_serves_def is_markup_def)
  have h2: "third_serves ?u = Response ''video/mp4'' (Finish (Some 10485760))"
    by (simp add: downloadUrls_def example_id_def third_serves_def)
  have h3: "\<not> str_includes ''video/mp4'' ''text/html''" by simp
  have h4: "(0::nat) < 10485760" by simp
  have h5: "extractFileIdFromUrl example_link = Inr example_id"
    unfolding example_link_def example_id_def shareableLink_def by code_simp
  have h6: "downloadUrls example_id = ?pre @ ?u # ?post"
    by (simp add: downloadUrls_def)
  have "?pre @ [?u] = take 3 (downloadUrls example_id)"
    by (simp add: downloadUrls_def)
  then show ?thesis
    using downloadFromDrive_first_binary_candidate[OF h1 h2 h3 h4,
        of "''p''" "''n''" ?post example_link example_id "''/app/temp''" None] h5 h6
    by (simp add: example_id_def)
qed

text \<open>
  Claim C3, as the code has it. When every candidate of a non-empty list answers with a
  markup content type or yields a zero-byte body, every candidate is requested, no file is
  left and the call fails, never succeeds. The error is the last candidate's own
  empty-file error when that candidate yielded a zero-byte body; when the last candidate
  answered with markup, which raises no error, it is the generic error thrown after the
  loop, whatever the earlier candidates raised.
\<close>

theorem downloadFromDrive_exhausted:
  assumes "\<forall>u \<in> set us. is_markup (net u) \<or> is_zero_byte (net u)"
    and "us \<noteq> []"
  shows "try_urls net fp fn us =
           (Inl (if is_markup (net (last us)) then AllUrlsFailed else EmptyFile), us, None)
       \<and> (extractFileIdFromUrl lnk = Inr fid \<and> us = downloadUrls fid \<longrightarrow>
            downloadFromDrive tempDir net old lnk =
              (Inl (if is_markup (net (last us)) then AllUrlsFailed else EmptyFile), us, None))"
proof -
  have loop: "\<And>fp fn. try_urls net fp fn us =
      (Inl (if is_markup (net (last us)) then AllUrlsFailed else EmptyFile), us, None)"
    using try_urls_exhausted[OF assms(2,1)] .
  show ?thesis
  proof (intro conjI impI)
    show "try_urls net fp fn us =
      (Inl (if is_markup (net (last us)) then AllUrlsFailed else EmptyFile), us, None)"
      by (rule loop)
  next
    assume a: "extractFileIdFromUrl lnk = Inr fid \<and> us = downloadUrls fid"
    then have "downloadFromDrive tempDir net old lnk =
        try_urls net (tempDir @ ''/'' @ ''video_'' @ fid @ ''.mp4'') (''video_'' @ fid @ ''.mp4'') us"
      by (simp add: downloadFromDrive_def Let_def)
    then show "downloadFromDrive tempDir net old lnk =
      (Inl (if is_markup (net (last us)) then AllUrlsFailed else EmptyFile), us, None)"
      by (simp only: loop)
  qed
qed

text \<open>
  Claim C3, on four candidates that all yield an empty body: the call fails with the
  empty-file error of the fourth, after requesting all four.
\<close>

theorem downloadFromDrive_exhausted_witness:
  "map (is_zero_byte \<circ> empty_bodies) (downloadUrls example_id) = [True, True, True, True] \<and>
   extractFileIdFromUrl example_link = Inr example_id \<and>
   downloadFromDrive ''/app/temp'' empty_bodies None example_link =
     (Inl EmptyFile, downloadUrls example_id, None)"
proof -
  have h1: "\<forall>u \<in> set (downloadUrls example_id). is_markup (empty_bodies u) \<or> is_zero_byte (empty_bodies u)"
    by (simp add: is_zero_byte_def empty_bodies_def)
  have h2: "downloadUrls example_id \<noteq> []" by (simp add: downloadUrls_def)
  have h3: "extractFileIdFromUrl example_link = Inr example_id"
    unfolding example_link_def example_id_def shareableLink_def by code_simp
  have h4: "\<not> is_markup (empty_bodies (last (downloadUrls example_id)))"
    by (simp add: is_markup_def empty_bodies_def)
  have h5: "map (is_zero_byte \<circ> empty_bodies) (downloadUrls example_id) = [True, True, True, True]"
    by (simp add: is_zero_byte_def empty_bodies_def downloadUrls_def)
  from downloadFromDrive_exhausted[OF h1 h2, of "''p''" "''n''" example_link example_id "''/app/temp''" None]
  show ?thesis using h3 h4 h5 by simp
qed

text \<open>
  Claim C3 as stated fails where it says the error carries the last candidate's error:
  with three empty bodies followed by a markup answer, the three errors raised are the
  empty-file error, the last candidate raises none, and the call fails with the generic
  error.
\<close>

theorem downloadFromDrive_markup_last_generic_error:
  "fst (downloadFromDrive ''/app/temp'' markup_last None example_link) = Inl AllUrlsFailed \<and>
   map (try_candidate \<circ> markup_last) (downloadUrls example_id) =
     [Threw EmptyFile, Threw EmptyFile, Threw EmptyFile, Skip]"
  unfolding example_link_def example_id_def shareableLink_def
  by code_simp

section \<open>Properties of the reconciler\<close>

subsection \<open>The lookups and the loop\<close>

lemma collect_page_sets:
  "collect_page q (V, L) =
     (V \<union> (\<lambda>t. trim (toLowerCase t)) ` {t. \<exists>segs. Video_Title q = t # segs \<and> t \<noteq> []},
      L \<union> {l. Drive_Link q = Some l \<and> l \<noteq> []})"
  by (auto simp: collect_page_def split: list.split option.split)

lemma fold_collect_page:
  "fold collect_page ps (V, L) =
     (V \<union> (\<lambda>t. trim (toLowerCase t)) ` {t. \<exists>p \<in> set ps. \<exists>segs. Video_Title p = t # segs \<and> t \<noteq> []},
      L \<union> {l. \<exists>p \<in> set ps. Drive_Link p = Some l \<and> l \<noteq> []})"
proof (induction ps arbitrary: V L)
  case Nil
  then show ?case by simp
next
  case (Cons q ps)
  have t: "{t. \<exists>p \<in> set (q # ps). \<exists>segs. Video_Title p = t # segs \<and> t \<noteq> []}
      = {t. \<exists>segs. Video_Title q = t # segs \<and> t \<noteq> []}
        \<union> {t. \<exists>p \<in> set ps. \<exists>segs. Video_Title p = t # segs \<and> t \<noteq> []}"
    by auto
  have l: "{l. \<exists>p \<in> set (q # ps). Drive_Link p = Some l \<and> l \<noteq> []}
      = {l. Drive_Link q = Some l \<and> l \<noteq> []} \<union> {l. \<exists>p \<in> set ps. Drive_Link p = Some l \<and> l \<noteq> []}"
    by auto
  have "fold collect_page (q # ps) (V, L) = fold collect_page ps (collect_page q (V, L))"
    by simp
  then show ?case
    by (simp only: collect_page_sets Cons.IH t l image_Un Un_assoc)
qed

lemma existing_links:
  "snd (getExistingVideosFromNotion db) =
     {l. \<exists>p \<in> set (take 100 (pages db)). Drive_Link p = Some l \<and> l \<noteq> []}"
  by (simp add: getExistingVideosFromNotion_def notion_query_def fold_collect_page)

lemma existing_titles:
  "fst (getExistingVideosFromNotion db) =
     (\<lambda>t. trim (toLowerCase t)) `
       {t. \<exists>p \<in> set (take 100 (pages db)). \<exists>segs. Video_Title p = t # segs \<and> t \<noteq> []}"
  by (simp add: getExistingVideosFromNotion_def notion_query_def fold_collect_page)

text \<open>The loop, with preview off: what it leaves, for any starting counters.\<close>

lemma add_videos_real:
  "add_videos False vs (db, a, e) =
     (db\<lparr>pages := pages db @ map (\<lambda>(i, v). (new_page v)\<lparr>page_id := i\<rparr>)
                        (enumerate (next_id db) (filter (\<lambda>v. \<not> refuses db (new_page v)) vs)),
         next_id := next_id db + length (filter (\<lambda>v. \<not> refuses db (new_page v)) vs)\<rparr>,
      a + length (filter (\<lambda>v. \<not> refuses db (new_page v)) vs),
      e + length (filter (\<lambda>v. refuses db (new_page v)) vs))"
proof (induction vs arbitrary: db a e)
  case Nil
  then show ?case by simp
next
  case (Cons v vs)
  show ?case
  proof (cases "refuses db (new_page v)")
    case True
    then show ?thesis
      by (simp add: addVideoToNotion_def notion_create_def Cons)
  next
    case False
    then show ?thesis
      by (simp add: addVideoToNotion_def notion_create_def Cons)
  qed
qed

lemma add_videos_dry:
  "add_videos True vs (db, a, e) = (db, a + length vs, e)"
  by (induction vs arbitrary: a) auto








lemma take_100_all: "length xs \<le> 100 \<Longrightarrow> take 100 xs = xs"
  by simp

lemma filter_all_length: "length (filter P xs) = length xs \<Longrightarrow> filter P xs = xs"
  by (metis filter_True length_filter_less less_irrefl)

lemma apply_limit_length: "length (apply_limit l xs) \<le> length xs"
  by (simp add: apply_limit_def split: option.split)

lemma apply_limit_all: "length (apply_limit l xs) = length xs \<Longrightarrow> apply_limit l xs = xs"
proof (cases l)
  case None
  then show ?thesis by (simp add: apply_limit_def)
next
  case (Some k)
  assume a: "length (apply_limit l xs) = length xs"
  consider "k = 0" | "0 < k" | "k < 0" by linarith
  then show ?thesis
  proof cases
    case 1
    with Some show ?thesis by (simp add: apply_limit_def)
  next
    case 2
    with Some a have "length xs \<le> nat k" by (simp add: apply_limit_def)
    with Some 2 show ?thesis by (simp add: apply_limit_def)
  next
    case 3
    with Some a have "min (length xs) (length xs - nat (- k)) = length xs"
      by (simp add: apply_limit_def)
    moreover from 3 have "0 < nat (- k)" by simp
    ultimately have "length xs = 0" by linarith
    with Some 3 show ?thesis by (simp add: apply_limit_def)
  qed
qed

lemma driveLink_nonempty: "v \<in> set (getVideosFromDrive files) \<Longrightarrow> driveLink v \<noteq> []"
  by (auto simp: getVideosFromDrive_def process_file_def shareableLink_def)

subsection \<open>Duplicate suppression\<close>




subsection \<open>Running the reconciler twice\<close>

text \<open>
  Claim C7, as the code has it. With \<open>skipExisting\<close> on and preview off, when the first
  pass registered every new item (its \<open>added\<close> and \<open>skipped\<close> counts add up to the size of
  the inventory: no limit cut the batch, no creation failed) and the store then holds at
  most 100 pages, a second pass over the same inventory creates nothing: it returns
  \<open>added = 0\<close> and leaves the store as it is.
\<close>

theorem syncVideos_second_pass_adds_nothing:
  assumes skip: "skipExisting opts"
    and real: "\<not> dryRun opts"
    and run1: "syncVideos files opts db = (r1, db1)"
    and full: "added r1 + skipped r1 = length files"
    and small: "length (pages db1) \<le> 100"
  shows "syncVideos files opts db1 =
           (\<lparr>added = 0, skipped = length files, errors = 0, total = None\<rparr>, db1)"
proof -
  let ?dv = "getVideosFromDrive files"
  let ?ex = "getExistingVideosFromNotion db"
  let ?nv = "filter (is_new opts ?ex) ?dv"
  let ?ta = "apply_limit (limit opts) ?nv"
  let ?ok = "\<lambda>v. \<not> refuses db (new_page v)"
  let ?mk = "\<lambda>(i, v). (new_page v)\<lparr>page_id := i\<rparr>"
  have len: "length ?dv = length files" by (simp add: getVideosFromDrive_def)
  show ?thesis
  proof (cases "?dv = []")
    case True
    then show ?thesis using len by (simp add: syncVideos_def)
  next
    case dv: False
    have known: "\<forall>v \<in> set ?dv. \<not> is_new opts (getExistingVideosFromNotion db1) v"
    proof (cases "?nv = []")
      case True
      then have "db1 = db" using run1 dv by (simp add: syncVideos_def Let_def)
      with True show ?thesis by (auto simp: filter_empty_conv)
    next
      case nv: False
      from run1 dv nv real have r1: "r1 = \<lparr>added = length (filter ?ok ?ta),
             skipped = length ?dv - length ?nv,
             errors = length (filter (\<lambda>v. refuses db (new_page v)) ?ta),
             total = Some (length ?dv)\<rparr>"
        and d1: "pages db1 = pages db @ map ?mk (enumerate (next_id db) (filter ?ok ?ta))"
        by (auto simp: syncVideos_def Let_def add_videos_real split: prod.splits)
      have le1: "length (filter ?ok ?ta) \<le> length ?ta" by simp
      have le2: "length ?ta \<le> length ?nv" by (rule apply_limit_length)
      have le3: "length ?nv \<le> length ?dv" by simp
      from full r1 len have "length (filter ?ok ?ta) + (length ?dv - length ?nv) = length ?dv"
        by simp
      with le1 le2 le3 have e1: "length (filter ?ok ?ta) = length ?ta" and e2: "length ?ta = length ?nv"
        by linarith+
      have "filter ?ok ?ta = ?nv"
        using filter_all_length[OF e1] apply_limit_all[OF e2] by simp
      with d1 have d1': "pages db1 = pages db @ map ?mk (enumerate (next_id db) ?nv)" by simp
      have old: "set (take 100 (pages db)) \<subseteq> set (take 100 (pages db1))"
        using small d1' by (simp add: take_100_all)
      show ?thesis
      proof
        fix v assume v: "v \<in> set ?dv"
        show "\<not> is_new opts (getExistingVideosFromNotion db1) v"
        proof (cases "is_new opts ?ex v")
          case True
          with v have "v \<in> set ?nv" by simp
          then obtain k where k: "k < length ?nv" "?nv ! k = v"
            by (metis in_set_conv_nth)
          define i where "i = next_id db + k"
          from k have "(i, v) \<in> set (enumerate (next_id db) ?nv)"
            by (simp add: in_set_enumerate_eq i_def)
          then have "(new_page v)\<lparr>page_id := i\<rparr> \<in> set (pages db1)"
            using d1' by force
          then have "\<exists>p \<in> set (take 100 (pages db1)). Drive_Link p = Some (driveLink v)"
            using small by (intro bexI[of _ "(new_page v)\<lparr>page_id := i\<rparr>"]) (simp_all add: new_page_def)
          then have "driveLink v \<in> snd (getExistingVideosFromNotion db1)"
            using driveLink_nonempty[OF v] by (auto simp: existing_links)
          then show ?thesis using skip by (simp add: is_new_def Let_def)
        next
          case False
          then have "trim (toLowerCase (name v)) \<in> fst ?ex \<or> driveLink v \<in> snd ?ex"
            by (simp add: is_new_def Let_def)
          then have "trim (toLowerCase (name v)) \<in> fst (getExistingVideosFromNotion db1)
               \<or> driveLink v \<in> snd (getExistingVideosFromNotion db1)"
            using old unfolding existing_links existing_titles by blast
          then show ?thesis using skip by (simp add: is_new_def Let_def)
        qed
      qed
    qed
    then have "filter (is_new opts (getExistingVideosFromNotion db1)) ?dv = []"
      by (simp add: filter_empty_conv)
    then show ?thesis using dv len by (simp add: syncVideos_def Let_def)
  qed
qed

text \<open>Claim C7, on an empty store and two files without limit.\<close>

theorem syncVideos_second_pass_adds_nothing_witness:
  "added (fst (syncVideos two_talks sync_main_options empty_store))
     + skipped (fst (syncVideos two_talks sync_main_options empty_store)) = length two_talks \<and>
   length (pages (snd (syncVideos two_talks sync_main_options empty_store))) = 2 \<and>
   syncVideos two_talks sync_main_options (snd (syncVideos two_talks sync_main_options empty_store))
     = (\<lparr>added = 0, skipped = 2, errors = 0, total = None\<rparr>,
        snd (syncVideos two_talks sync_main_options empty_store))"
proof -
  have h1: "skipExisting sync_main_options" by (simp add: sync_main_options_def)
  have h2: "\<not> dryRun sync_main_options" by (simp add: sync_main_options_def)
  have h3: "syncVideos two_talks sync_main_options empty_store =
      (fst (syncVideos two_talks sync_main_options empty_store),
       snd (syncVideos two_talks sync_main_options empty_store))" by simp
  have h4: "added (fst (syncVideos two_talks sync_main_options empty_store))
     + skipped (fst (syncVideos two_talks sync_main_options empty_store)) = length two_talks"
    by code_simp
  have h5: "length (pages (snd (syncVideos two_talks sync_main_options empty_store))) = 2"
    by code_simp
  then have h6: "length (pages (snd (syncVideos two_talks sync_main_options empty_store))) \<le> 100"
    by simp
  have l: "length two_talks = 2" by (simp add: two_talks_def)
  from syncVideos_second_pass_adds_nothing[OF h1 h2 h3 h4 h6] h4 h5 l
  show ?thesis by simp
qed

text \<open>
  Claim C7 as stated fails under a limit: with \<open>limit = 1\<close> the first pass registers one
  of two new files, and the second pass, on the same inventory and the store the first
  one left, registers the other.
\<close>

theorem syncVideos_limit_second_pass_adds:
  "added (fst (syncVideos two_talks one_per_pass
                 (snd (syncVideos two_talks one_per_pass empty_store)))) = 1 \<and>
   map Video_Title (pages (snd (syncVideos two_talks one_per_pass
                 (snd (syncVideos two_talks one_per_pass empty_store)))))
     = [[''Talk B''], [''Talk A'']]"
  by code_simp

subsection \<open>The page size of the lookup query\<close>

text \<open>
  Claim C9. The lookups are folded from the first 100 pages of the one query. For a store
  listing \<open>first @ rest\<close> with at least 100 pages in \<open>first\<close>, the pages of \<open>rest\<close>
  contribute nothing: the lookups, the verdict of the filter on any item, and the counts
  a pass returns are those of the store \<open>first\<close> alone.
\<close>

theorem existing_lookup_first_page_only:
  assumes "100 \<le> length first"
  shows "getExistingVideosFromNotion (db\<lparr>pages := first @ rest\<rparr>)
           = getExistingVideosFromNotion (db\<lparr>pages := first\<rparr>)
       \<and> getExistingVideosFromNotion (db\<lparr>pages := first\<rparr>)
           = fold collect_page (take 100 first) ({}, {})
       \<and> is_new opts (getExistingVideosFromNotion (db\<lparr>pages := first @ rest\<rparr>)) v
           = is_new opts (getExistingVideosFromNotion (db\<lparr>pages := first\<rparr>)) v
       \<and> fst (syncVideos files opts (db\<lparr>pages := first @ rest\<rparr>))
           = fst (syncVideos files opts (db\<lparr>pages := first\<rparr>))"
proof -
  have lk: "getExistingVideosFromNotion (db\<lparr>pages := first @ rest\<rparr>)
           = getExistingVideosFromNotion (db\<lparr>pages := first\<rparr>)"
    using assms by (simp add: getExistingVideosFromNotion_def notion_query_def)
  have "fst (syncVideos files opts (db\<lparr>pages := first @ rest\<rparr>))
           = fst (syncVideos files opts (db\<lparr>pages := first\<rparr>))"
  proof (cases "dryRun opts")
    case True
    then show ?thesis
      by (simp add: syncVideos_def Let_def lk add_videos_dry)
  next
    case False
    then show ?thesis
      by (simp add: syncVideos_def Let_def lk add_videos_real)
  qed
  with lk show ?thesis
    by (simp add: getExistingVideosFromNotion_def notion_query_def)
qed

text \<open>
  Claim C9, on a store of 100 blank pages followed by the page that tracks \<open>Talk B\<close>: the
  pass counts as on the 100 blank pages alone.
\<close>

theorem existing_lookup_first_page_only_witness:
  "length (replicate 100 blank_page) = 100 \<and>
   Drive_Link talk_b_page = Some (driveLink (process_file (two_talks ! 0))) \<and>
   getExistingVideosFromNotion (empty_store\<lparr>pages := replicate 100 blank_page @ [talk_b_page]\<rparr>)
     = getExistingVideosFromNotion (empty_store\<lparr>pages := replicate 100 blank_page\<rparr>) \<and>
   fst (syncVideos two_talks sync_main_options
          (empty_store\<lparr>pages := replicate 100 blank_page @ [talk_b_page]\<rparr>))
     = fst (syncVideos two_talks sync_main_options
          (empty_store\<lparr>pages := replicate 100 blank_page\<rparr>))"
proof -
  have h: "100 \<le> length (replicate 100 blank_page)" by simp
  have l: "Drive_Link talk_b_page = Some (driveLink (process_file (two_talks ! 0)))"
    by (simp add: talk_b_page_def two_talks_def process_file_def shareableLink_def)
  from existing_lookup_first_page_only[OF h, where db = empty_store and rest = "[talk_b_page]"
      and opts = sync_main_options and files = two_talks] l
  show ?thesis by simp
qed

section \<open>Properties of the lifecycle driver\<close>

subsection \<open>Updating one page\<close>

lemma find_map_same_id:
  assumes "\<And>q. page_id (f q) = page_id q"
  shows "find (\<lambda>q. page_id q = pid) (map (\<lambda>q. if page_id q = pid then f q else q) ps)
       = map_option f (find (\<lambda>q. page_id q = pid) ps)"
  by (induction ps) (auto simp: assms)

lemma find_Some_mem: "find P ps = Some p \<Longrightarrow> p \<in> set ps \<and> P p"
  by (induction ps) (auto split: if_splits)

lemma retrieve_present: "notion_retrieve db pid = Inr p \<Longrightarrow> pid \<in> page_id ` set (pages db) \<and> page_id p = pid"
  by (auto simp: notion_retrieve_def split: option.splits dest: find_Some_mem)

lemma update_then_retrieve:
  assumes "notion_retrieve db pid = Inr p" and "\<And>q. page_id (f q) = page_id q"
  shows "\<exists>db'. notion_update db pid f = Inr db' \<and> notion_retrieve db' pid = Inr (f p)
           \<and> db' = db\<lparr>pages := map (\<lambda>q. if page_id q = pid then f q else q) (pages db)\<rparr>"
proof -
  from assms(1) have mem: "pid \<in> page_id ` set (pages db)" by (simp add: retrieve_present)
  from assms(1) have fd: "find (\<lambda>q. page_id q = pid) (pages db) = Some p"
    by (auto simp: notion_retrieve_def split: option.splits)
  show ?thesis using mem fd
    by (simp add: notion_update_def notion_retrieve_def find_map_same_id[of f, OF assms(2)])
qed

lemma result_properties_id: "page_id (result_properties ur now q) = page_id q"
  by (simp add: result_properties_def Let_def split: option.split)

lemma status_properties_id: "page_id (status_properties st yd now q) = page_id q"
  by (simp add: status_properties_def Let_def split: option.split)


subsection \<open>The transition into Error\<close>




subsection \<open>The transition into Uploaded\<close>

text \<open>
  Claim C5, as the code has it. For a page \<open>p\<close> of the store and a successful outcome with
  a non-empty URL and a non-empty video identifier, \<open>updateNotionPage\<close> (and
  \<open>updateNotionAfterUpload\<close> with it) leaves the page with status \<open>Uploaded\<close>, the URL as
  \<open>YouTube URL\<close> and the identifier (its first 2000 characters) as \<open>Video ID\<close>;
  \<open>markAsUploaded\<close> leaves it with status \<open>Uploaded\<close>, the URL and the clock as
  \<open>Upload Date\<close>, and does not write the identifier. Neither writes the error fields: \<open>Error Message\<close> and \<open>Error Date\<close> stay as
  they were.
\<close>

theorem uploaded_transition_persists_url_and_id:
  assumes "notion_retrieve db pid = Inr p"
    and "success outcome"
    and "videoUrl outcome = Some link" and "link \<noteq> []"
    and "videoId outcome = Some vid" and "vid \<noteq> []"
  shows "(\<exists>db' p'. updateNotionPage db pid outcome now = Inr db'
          \<and> updateNotionAfterUpload db pid outcome now = Inr db'
          \<and> notion_retrieve db' pid = Inr p'
          \<and> Upload_Status p' = Some Uploaded
          \<and> YouTube_URL p' = Some link
          \<and> Video_ID p' = [take 2000 vid]
          \<and> Error_Message p' = Error_Message p \<and> Error_Date p' = Error_Date p)
       \<and> (\<exists>db' p'. markAsUploaded db pid outcome now = Inr db'
          \<and> notion_retrieve db' pid = Inr p'
          \<and> Upload_Status p' = Some Uploaded
          \<and> YouTube_URL p' = Some link \<and> Upload_Date p' = Some now
          \<and> Video_ID p' = Video_ID p
          \<and> Error_Message p' = Error_Message p \<and> Error_Date p' = Error_Date p)"
proof -
  let ?p1 = "result_properties outcome now p"
  from update_then_retrieve[OF assms(1), of "result_properties outcome now"]
  obtain db1 where d1: "updateNotionPage db pid outcome now = Inr db1"
    "notion_retrieve db1 pid = Inr ?p1"
    by (auto simp: updateNotionPage_def result_properties_id)
  have a1: "updateNotionAfterUpload db pid outcome now = Inr db1"
    using d1(1) assms(2) by (simp add: updateNotionAfterUpload_def)
  have f1: "Upload_Status ?p1 = Some Uploaded" "YouTube_URL ?p1 = Some link"
    "Video_ID ?p1 = [take 2000 vid]" "Error_Message ?p1 = Error_Message p"
    "Error_Date ?p1 = Error_Date p"
    using assms(2-6)
    by (simp_all add: result_properties_def Let_def createRichText_def truthy_def split: option.split)
  let ?yd = "\<lparr>data_videoUrl = Some link, data_uploadDate = Some now\<rparr>"
  let ?p2 = "status_properties Uploaded (Some ?yd) now p"
  from update_then_retrieve[OF assms(1), of "status_properties Uploaded (Some ?yd) now"]
  obtain db2 where d2: "updateVideoStatus db pid Uploaded (Some ?yd) now = Inr db2"
    "notion_retrieve db2 pid = Inr ?p2"
    by (auto simp: updateVideoStatus_def status_properties_id)
  have m: "markAsUploaded db pid outcome now = Inr db2"
    using d2(1) assms(3,4) by (simp add: markAsUploaded_def truthy_def Let_def)
  have f2: "Upload_Status ?p2 = Some Uploaded" "YouTube_URL ?p2 = Some link"
    "Upload_Date ?p2 = Some now"
    "Video_ID ?p2 = Video_ID p" "Error_Message ?p2 = Error_Message p"
    "Error_Date ?p2 = Error_Date p"
    using assms(4) by (simp_all add: status_properties_def Let_def truthy_def)
  show ?thesis
    using d1 a1 f1 d2(2) m f2 by blast
qed


text \<open>Claim C5, on a pending page and a published outcome.\<close>

theorem uploaded_transition_persists_url_and_id_witness:
  "notion_retrieve pending_store 3 = Inr pending_page \<and> success published \<and>
   (\<exists>db' p'. updateNotionPage pending_store 3 published 9000 = Inr db'
       \<and> notion_retrieve db' 3 = Inr p'
       \<and> Upload_Status p' = Some Uploaded
       \<and> YouTube_URL p' = Some ''https://www.youtube.com/watch?v=dQw4w9WgXcQ''
       \<and> Video_ID p' = [''dQw4w9WgXcQ''])"
proof -
  have h1: "notion_retrieve pending_store 3 = Inr pending_page"
    by (simp add: notion_retrieve_def pending_store_def pending_page_def)
  have h2: "success published" by (simp add: published_def)
  have h3: "videoUrl published = Some ''https://www.youtube.com/watch?v=dQw4w9WgXcQ''"
    by (simp add: published_def)
  have h4: "''https://www.youtube.com/watch?v=dQw4w9WgXcQ'' \<noteq> []" by simp
  have h5: "videoId published = Some ''dQw4w9WgXcQ''" by (simp add: published_def)
  have h6: "''dQw4w9WgXcQ'' \<noteq> []" by simp
  from uploaded_transition_persists_url_and_id[OF h1 h2 h3 h4 h5 h6, of 9000]
  obtain db' p' where r: "updateNotionPage pending_store 3 published 9000 = Inr db'"
    "notion_retrieve db' 3 = Inr p'" "Upload_Status p' = Some Uploaded"
    "YouTube_URL p' = Some ''https://www.youtube.com/watch?v=dQw4w9WgXcQ''"
    "Video_ID p' = [take 2000 ''dQw4w9WgXcQ'']"
    by blast
  from r(5) have "Video_ID p' = [''dQw4w9WgXcQ'']" by simp
  with r(1-4) h1 h2 show ?thesis by blast
qed

text \<open>
  Claim C5 as stated fails where it says the error fields are cleared: a page that holds
  an error message from an earlier failure keeps it when it becomes \<open>Uploaded\<close>; and
  \<open>markAsUploaded\<close> leaves \<open>Video ID\<close> empty.
\<close>

theorem uploaded_transition_keeps_error_message:
  "map Error_Message (pages failed_store) = [[''quota exceeded'']] \<and>
   map_sum id (map Upload_Status \<circ> pages) (updateNotionPage failed_store 7 published 9000)
     = Inr [Some Uploaded] \<and>
   map_sum id (map Error_Message \<circ> pages) (updateNotionPage failed_store 7 published 9000)
     = Inr [[''quota exceeded'']] \<and>
   map_sum id (map Error_Message \<circ> pages) (markAsUploaded failed_store 7 published 9000)
     = Inr [[''quota exceeded'']] \<and>
   map_sum id (map Video_ID \<circ> pages) (markAsUploaded failed_store 7 published 9000)
     = Inr [[]]"
  by (simp add: updateNotionPage_def markAsUploaded_def updateVideoStatus_def notion_update_def
      result_properties_def status_properties_def failed_store_def failed_page_def
      blank_page_def published_def truthy_def truthy_num_def createRichText_def
      formatNotionDate_def capitalize_def Let_def)

subsection \<open>The maintenance reset\<close>

lemma reset_properties_id: "page_id (reset_properties q) = page_id q"
  by (simp add: reset_properties_def)

lemma reset_properties_idem: "reset_properties (reset_properties q) = reset_properties q"
  by (simp add: reset_properties_def)

lemma reset_pages_effect:
  "page_id ` set pgs \<subseteq> page_id ` set (pages db) \<Longrightarrow>
   reset_pages pgs (db, c) =
     (db\<lparr>pages := map (\<lambda>q. if page_id q \<in> page_id ` set pgs then reset_properties q else q) (pages db)\<rparr>,
      c + length pgs)"
proof (induction pgs arbitrary: db c)
  case Nil
  then show ?case by simp
next
  case (Cons pg pgs)
  let ?db1 = "db\<lparr>pages := map (\<lambda>q. if page_id q = page_id pg then reset_properties q else q) (pages db)\<rparr>"
  have up: "notion_update db (page_id pg) reset_properties = Inr ?db1"
    using Cons.prems by (simp add: notion_update_def)
  have "map page_id (pages ?db1) = map page_id (pages db)"
    by (simp add: reset_properties_id o_def if_distrib cong: if_cong)
  then have ids: "page_id ` set (pages ?db1) = page_id ` set (pages db)"
    by (metis list.set_map)
  have "page_id ` set pgs \<subseteq> page_id ` set (pages ?db1)"
    using Cons.prems ids by auto
  from Cons.IH[OF this, of "Suc c"] up
  have "reset_pages (pg # pgs) (db, c) =
     (?db1\<lparr>pages := map (\<lambda>q. if page_id q \<in> page_id ` set pgs then reset_properties q else q) (pages ?db1)\<rparr>,
      Suc c + length pgs)"
    by simp
  moreover have "map (\<lambda>q. if page_id q \<in> page_id ` set pgs then reset_properties q else q) (pages ?db1)
      = map (\<lambda>q. if page_id q \<in> page_id ` set (pg # pgs) then reset_properties q else q) (pages db)"
    by (simp add: reset_properties_id reset_properties_idem)
  ultimately show ?case by simp
qed

lemma cutoffDate_fixed_offset:
  assumes "tza now True = off" and "tza (now + off - days * day_ms) False = off"
    and "\<bar>now - days * day_ms\<bar> \<le> max_time"
  shows "cutoffDate tza now days = Some (now - days * day_ms)"
  using assms by (simp add: cutoffDate_def Let_def)

lemma cleanupOldErrors_effect:
  assumes "distinct (map page_id (pages db))"
    and "cutoffDate tza now days = Some c"
  shows "cleanupOldErrors tza db days now =
     (length (take 100 (filter (stale_error c) (pages db))),
      db\<lparr>pages := map (\<lambda>q. if q \<in> set (take 100 (filter (stale_error c) (pages db)))
                             then reset_properties q else q) (pages db)\<rparr>)"
proof -
  let ?got = "take 100 (filter (stale_error c) (pages db))"
  have inside: "set ?got \<subseteq> set (pages db)"
    using set_take_subset[of 100 "filter (stale_error c) (pages db)"] by auto
  then have sub: "page_id ` set ?got \<subseteq> page_id ` set (pages db)" by auto
  have inj: "inj_on page_id (set (pages db))"
    using assms(1) by (simp add: distinct_map)
  have "\<And>q. q \<in> set (pages db) \<Longrightarrow> (page_id q \<in> page_id ` set ?got) = (q \<in> set ?got)"
  proof
    fix q assume q: "q \<in> set (pages db)" and "page_id q \<in> page_id ` set ?got"
    then obtain q' where q': "q' \<in> set ?got" "page_id q = page_id q'" by auto
    with inside have "q' \<in> set (pages db)" by auto
    with inj q q'(2) have "q = q'" by (auto simp: inj_on_def)
    with q'(1) show "q \<in> set ?got" by simp
  next
    fix q assume "q \<in> set ?got"
    then show "page_id q \<in> page_id ` set ?got" by simp
  qed
  then have "map (\<lambda>q. if page_id q \<in> page_id ` set ?got then reset_properties q else q) (pages db)
           = map (\<lambda>q. if q \<in> set ?got then reset_properties q else q) (pages db)"
    by (intro map_cong) auto
  then show ?thesis
    using assms(2)
    by (simp add: cleanupOldErrors_def notion_query_def reset_pages_effect[OF sub])
qed

text \<open>
  Claim C6, as the code has it. Let the pages of the store have distinct identifiers, let
  local time have the same offset from UTC at \<open>now\<close> and \<open>days\<close> days earlier, let
  \<open>now - days\<close> (days of 24 hours) be a date, and let at most 100 pages have the status
  \<open>Error\<close> and an \<open>Error Date\<close> before \<open>now - days\<close>. Then \<open>cleanupOldErrors\<close> with
  threshold \<open>days\<close> rewrites exactly those pages: they get the status \<open>Pending\<close>, an empty
  \<open>Error Message\<close> and \<open>Upload Attempts = 0\<close>. Every other page is left as it is, and the
  number returned is the number of pages reset. Without an argument the threshold is 7.
\<close>

theorem cleanupOldErrors_resets_stale:
  assumes "distinct (map page_id (pages db))"
    and "tza now True = off"
    and "tza (now + off - days * day_ms) False = off"
    and "\<bar>now - days * day_ms\<bar> \<le> max_time"
    and "length (filter (stale_error (now - days * day_ms)) (pages db)) \<le> 100"
  shows "cleanupOldErrors tza db days now =
           (length (filter (stale_error (now - days * day_ms)) (pages db)),
            db\<lparr>pages := map (\<lambda>q. if stale_error (now - days * day_ms) q
                                   then reset_properties q else q) (pages db)\<rparr>)
       \<and> cleanupOldErrors_default tza db now = cleanupOldErrors tza db 7 now"
proof -
  let ?c = "now - days * day_ms"
  have c: "cutoffDate tza now days = Some ?c"
    using assms(2-4) by (rule cutoffDate_fixed_offset)
  have all: "take 100 (filter (stale_error ?c) (pages db)) = filter (stale_error ?c) (pages db)"
    using assms(5) by simp
  have "map (\<lambda>q. if q \<in> set (filter (stale_error ?c) (pages db)) then reset_properties q else q) (pages db)
      = map (\<lambda>q. if stale_error ?c q then reset_properties q else q) (pages db)"
    by (intro map_cong) auto
  with cleanupOldErrors_effect[OF assms(1) c] all show ?thesis
    by (simp add: cleanupOldErrors_default_def)
qed

text \<open>
  Claim C6, on three pages at a clock of 8 days and 2 seconds, in UTC: an error stamped at
  1 second is reset, an error stamped about 7 days later and a pending page are
  untouched, and the count is 1.
\<close>

theorem cleanupOldErrors_resets_stale_witness:
  "map page_id (pages mixed_store) = [7, 8, 3] \<and>
   map (stale_error (691202000 - 7 * day_ms)) (pages mixed_store) = [True, False, False] \<and>
   cleanupOldErrors_default utc mixed_store 691202000 =
     (1, mixed_store\<lparr>pages :=
           [failed_page\<lparr>Upload_Status := Some Pending, Error_Message := [],
                        Upload_Attempts := Some 0\<rparr>,
            recent_failure, pending_page]\<rparr>)"
proof -
  have ids: "map page_id (pages mixed_store) = [7, 8, 3]"
    by (simp add: mixed_store_def failed_page_def recent_failure_def pending_page_def)
  then have h1: "distinct (map page_id (pages mixed_store))" by simp
  have h2: "utc 691202000 True = 0" by (simp add: utc_def)
  have h3: "utc (691202000 + 0 - 7 * day_ms) False = 0" by (simp add: utc_def)
  have h4: "\<bar>691202000 - 7 * day_ms\<bar> \<le> max_time" by (simp add: day_ms_def max_time_def)
  have st: "map (stale_error (691202000 - 7 * day_ms)) (pages mixed_store) = [True, False, False]"
    by (simp add: mixed_store_def failed_page_def recent_failure_def pending_page_def
        blank_page_def stale_error_def day_ms_def)
  then have each: "stale_error (691202000 - 7 * day_ms) failed_page"
    "\<not> stale_error (691202000 - 7 * day_ms) recent_failure"
    "\<not> stale_error (691202000 - 7 * day_ms) pending_page"
    by (simp_all add: mixed_store_def)
  then have h5: "length (filter (stale_error (691202000 - 7 * day_ms)) (pages mixed_store)) \<le> 100"
    by (simp add: mixed_store_def)
  from cleanupOldErrors_resets_stale[OF h1 h2 h3 h4 h5] each ids st
  show ?thesis by (simp add: mixed_store_def reset_properties_def)
qed

lemma crowded_ids: "map page_id (pages crowded_store) = [0..<101]"
  by (simp add: crowded_store_def o_def)

lemma crowded_all_stale: "filter (stale_error 86402000) (pages crowded_store) = pages crowded_store"
  by (simp add: crowded_store_def stale_error_def failed_page_def blank_page_def filter_map o_def)

lemma utc_cutoff: "cutoffDate utc 691202000 7 = Some 86402000"
  by (simp add: cutoffDate_def utc_def day_ms_def max_time_def)

text \<open>
  Claim C6 as stated fails in three ways. The one query answers with at most 100 pages: of
  101 pages in \<open>Error\<close> for more than 7 days, 100 are reset and the last stays in
  \<open>Error\<close>. The cutoff is taken on the local calendar: where the clocks were set back by
  an hour within the last 7 days, an error 7 days and 40 minutes old is left untouched.
  And a threshold whose cutoff is not a date resets nothing and returns 0.
\<close>

theorem cleanupOldErrors_misses_stale_records:
  "length (filter (stale_error (691202000 - 7 * day_ms)) (pages crowded_store)) = 101 \<and>
   fst (cleanupOldErrors utc crowded_store 7 691202000) = 100 \<and>
   map Upload_Status (drop 100 (pages (snd (cleanupOldErrors utc crowded_store 7 691202000))))
     = [Some Error] \<and>
   stale_error (691202000 - 7 * day_ms) week_old_failure \<and>
   cleanupOldErrors clocks_set_back week_old_store 7 691202000 = (0, week_old_store) \<and>
   stale_error (691202000 - (- 200000000) * day_ms) failed_page \<and>
   cleanupOldErrors utc failed_store (- 200000000) 691202000 = (0, failed_store)"
proof -
  have d: "distinct (map page_id (pages crowded_store))" by (simp add: crowded_ids)
  have c: "691202000 - 7 * day_ms = 86402000" by (simp add: day_ms_def)
  have n: "length (pages crowded_store) = 101" by (simp add: crowded_store_def)
  have t: "take 100 (pages crowded_store) = map (\<lambda>i. failed_page\<lparr>page_id := i\<rparr>) [0..<100]"
    by (simp add: crowded_store_def take_map)
  have l: "drop 100 (pages crowded_store) = [failed_page\<lparr>page_id := 100\<rparr>]"
    by (simp add: crowded_store_def drop_map)
  have out: "failed_page\<lparr>page_id := 100\<rparr> \<notin> set (take 100 (pages crowded_store))"
    unfolding t by (auto simp: failed_page_def blank_page_def)
  have e: "cleanupOldErrors utc crowded_store 7 691202000 =
     (100, crowded_store\<lparr>pages := map (\<lambda>q. if q \<in> set (take 100 (pages crowded_store))
                             then reset_properties q else q) (pages crowded_store)\<rparr>)"
    using cleanupOldErrors_effect[OF d utc_cutoff] n by (simp add: crowded_all_stale)
  have a1: "length (filter (stale_error (691202000 - 7 * day_ms)) (pages crowded_store)) = 101"
    by (simp add: c crowded_all_stale n)
  have a2: "fst (cleanupOldErrors utc crowded_store 7 691202000) = 100"
    by (simp add: e)
  have a3: "map Upload_Status (drop 100 (pages (snd (cleanupOldErrors utc crowded_store 7 691202000))))
     = [Some Error]"
    using out by (simp add: e drop_map l) (simp add: failed_page_def)
  have b1: "stale_error (691202000 - 7 * day_ms) week_old_failure"
    by (simp add: stale_error_def week_old_failure_def day_ms_def)
  have b2: "cleanupOldErrors clocks_set_back week_old_store 7 691202000 = (0, week_old_store)"
    by (simp add: cleanupOldErrors_def cutoffDate_def clocks_set_back_def day_ms_def max_time_def
        notion_query_def week_old_store_def week_old_failure_def stale_error_def Let_def)
  have c1: "stale_error (691202000 - (- 200000000) * day_ms) failed_page"
    by (simp add: stale_error_def failed_page_def day_ms_def)
  have c2: "cleanupOldErrors utc failed_store (- 200000000) 691202000 = (0, failed_store)"
    by (simp add: cleanupOldErrors_def cutoffDate_def utc_def day_ms_def max_time_def Let_def)
  from a1 a2 a3 b1 b2 c1 c2 show ?thesis by simp
qed


section \<open>Properties of the orchestrator\<close>

lemma run_step_trace:
  assumes "\<And>tr' w'. set (fst (snd (k tr' w'))) \<subseteq> set tr' \<union> S"
  shows "set (fst (snd (run_step run cmd nm tr w k))) \<subseteq> set tr \<union> {cmd} \<union> S"
  using assms[of "tr @ [cmd]"]
  by (auto simp: run_step_def split: prod.splits exit.splits bool.splits)

lemma select_video_preview_trace:
  assumes "preview opts"
  shows "set (fst (snd (select_video opts run tr w))) \<subseteq> set tr \<union> {Node Fetch_videos []}"
proof -
  have "set (fst (snd (select_video opts run tr w))) \<subseteq> set tr \<union> {Node Fetch_videos []} \<union> {}"
    unfolding select_video_def
    by (rule run_step_trace) (auto simp: assms finish_def split: option.splits)
  then show ?thesis by simp
qed

lemma fetch_main_db: "notion_db (snd (fetch_main w)) = notion_db w \<and> folder (snd (fetch_main w)) = folder w"
  by (simp add: fetch_main_def split: option.split)

lemma select_video_preview_db:
  assumes "preview opts"
  shows "notion_db (snd (snd (select_video opts (node_scripts others) tr w))) = notion_db w
       \<and> folder (snd (snd (select_video opts (node_scripts others) tr w))) = folder w"
proof -
  have f: "node_scripts others (Node Fetch_videos []) w = fetch_main w"
    by (simp add: node_scripts_def)
  obtain x w1 where r: "fetch_main w = (x, w1)" by (cases "fetch_main w")
  with fetch_main_db[of w] have "notion_db w1 = notion_db w" "folder w1 = folder w" by simp_all
  then show ?thesis using assms r f
    by (auto simp: select_video_def run_step_def finish_def split: exit.splits bool.splits option.splits)
qed

text \<open>
  Claim C8, as the code has it. In preview mode \<open>runPipeline\<close> spawns no command but the
  sync script (when \<open>sync\<close> is on) and the selection script: the download, upload and
  update scripts are never run. With \<open>sync\<close> off the record store is left as it was.
  With \<open>sync\<close> on the sync script runs as in a normal run, without its own preview flag:
  the store the pipeline leaves is the store a real pass of \<open>syncVideos\<close> leaves.
\<close>

theorem runPipeline_preview_commands:
  assumes "preview opts"
  shows "set (fst (snd (runPipeline opts run w))) \<subseteq> {Node Sync_gdrive [], Node Fetch_videos []}
       \<and> (\<not> sync opts \<longrightarrow> set (fst (snd (runPipeline opts run w))) \<subseteq> {Node Fetch_videos []})
       \<and> (\<not> sync opts \<longrightarrow>
            notion_db (snd (snd (runPipeline opts (node_scripts others) w))) = notion_db w)
       \<and> (sync opts \<and> environment_ok w \<longrightarrow>
            notion_db (snd (snd (runPipeline opts (node_scripts others) w)))
              = snd (syncVideos (folder w) sync_main_options (notion_db w)))"
proof (intro conjI impI)
  have "set (fst (snd (run_step run (Node Sync_gdrive []) ''sync'' [] w (select_video opts run))))
      \<subseteq> set [] \<union> {Node Sync_gdrive []} \<union> {Node Fetch_videos []}"
    by (rule run_step_trace) (rule select_video_preview_trace[OF assms])
  then show "set (fst (snd (runPipeline opts run w))) \<subseteq> {Node Sync_gdrive [], Node Fetch_videos []}"
    using select_video_preview_trace[OF assms, of run "[]" w]
    by (auto simp: runPipeline_def)
next
  assume "\<not> sync opts"
  then show "set (fst (snd (runPipeline opts run w))) \<subseteq> {Node Fetch_videos []}"
    using select_video_preview_trace[OF assms, of run "[]" w]
    by (auto simp: runPipeline_def)
next
  assume "\<not> sync opts"
  then show "notion_db (snd (snd (runPipeline opts (node_scripts others) w))) = notion_db w"
    using select_video_preview_db[OF assms, of others "[]" w]
    by (simp add: runPipeline_def)
next
  assume a: "sync opts \<and> environment_ok w"
  obtain r db' where s: "syncVideos (folder w) sync_main_options (notion_db w) = (r, db')"
    by (cases "syncVideos (folder w) sync_main_options (notion_db w)")
  have "node_scripts others (Node Sync_gdrive []) w = (Exited True, w\<lparr>notion_db := db'\<rparr>)"
    using a s by (simp add: node_scripts_def sync_main_def)
  then show "notion_db (snd (snd (runPipeline opts (node_scripts others) w)))
              = snd (syncVideos (folder w) sync_main_options (notion_db w))"
    using a s select_video_preview_db[OF assms, of others "[Node Sync_gdrive []]" "w\<lparr>notion_db := db'\<rparr>"]
    by (simp add: runPipeline_def run_step_def)
qed

text \<open>
  Claim C8, on a store with one pending page and \<open>sync\<close> off: the pipeline succeeds after
  the selection script alone, and the store is unchanged.
\<close>

theorem runPipeline_preview_commands_witness:
  "preview preview_only \<and> \<not> sync preview_only \<and>
   fst (runPipeline preview_only (node_scripts idle) tracked_world) = Succeeded \<and>
   fst (snd (runPipeline preview_only (node_scripts idle) tracked_world)) = [Node Fetch_videos []] \<and>
   notion_db (snd (snd (runPipeline preview_only (node_scripts idle) tracked_world)))
     = notion_db tracked_world \<and>
   preview preview_run \<and> sync preview_run \<and> environment_ok fresh_world \<and>
   notion_db (snd (snd (runPipeline preview_run (node_scripts idle) fresh_world)))
     = snd (syncVideos (folder fresh_world) sync_main_options (notion_db fresh_world))"
proof -
  have h': "preview preview_run" by (simp add: preview_run_def)
  have s': "sync preview_run \<and> environment_ok fresh_world"
    by (simp add: preview_run_def fresh_world_def)
  have with_sync: "notion_db (snd (snd (runPipeline preview_run (node_scripts idle) fresh_world)))
     = snd (syncVideos (folder fresh_world) sync_main_options (notion_db fresh_world))"
    using runPipeline_preview_commands[OF h', of "node_scripts idle" fresh_world idle] s'
    by blast
  have h: "preview preview_only" by (simp add: preview_only_def)
  have n: "\<not> sync preview_only" by (simp add: preview_only_def)
  have r: "fst (runPipeline preview_only (node_scripts idle) tracked_world) = Succeeded"
    by code_simp
  have t: "fst (snd (runPipeline preview_only (node_scripts idle) tracked_world)) = [Node Fetch_videos []]"
    by code_simp
  from runPipeline_preview_commands[OF h, of "node_scripts idle" tracked_world idle] n
  have "notion_db (snd (snd (runPipeline preview_only (node_scripts idle) tracked_world)))
     = notion_db tracked_world" by blast
  with h n r t h' s' with_sync show ?thesis by simp
qed

text \<open>
  Claim C8 as stated fails with \<open>sync\<close> on, the default: on an empty store and a folder of
  two files, the preview run registers both files.
\<close>

theorem runPipeline_preview_sync_creates_records:
  "preview preview_run \<and>
   pages (notion_db fresh_world) = [] \<and>
   map Video_Title
     (pages (notion_db (snd (snd (runPipeline preview_run (node_scripts idle) fresh_world)))))
     = [[''Talk B''], [''Talk A'']] \<and>
   fst (snd (runPipeline preview_run (node_scripts idle) fresh_world))
     = [Node Sync_gdrive [], Node Fetch_videos []] \<and>
   fst (runPipeline preview_run (node_scripts idle) fresh_world) = Succeeded"
  by code_simp

end
